theory Spec2Isabelle
  imports Main "HOL-Library.Product_Lexorder"
begin

section \<open>Python containers\<close>

text \<open>
  A Python \<^verbatim>\<open>dict\<close> keeps its keys in insertion order, and the scheduler depends on that
  order (\<^verbatim>\<open>min\<close> returns the first minimal element, \<^verbatim>\<open>sorted\<close> is stable). A dictionary
  is therefore an association list whose keys are pairwise distinct (\<open>dict_ok\<close>).
\<close>

type_synonym ('k, 'v) pydict = "('k \<times> 'v) list"

definition dict_ok :: "('k, 'v) pydict \<Rightarrow> bool" where
  "dict_ok d = distinct (map fst d)"

definition dict_keys :: "('k, 'v) pydict \<Rightarrow> 'k list" where
  "dict_keys d = map fst d"

definition dict_values :: "('k, 'v) pydict \<Rightarrow> 'v list" where
  "dict_values d = map snd d"

text \<open>\<^verbatim>\<open>k in d\<close>\<close>

definition dict_has :: "('k, 'v) pydict \<Rightarrow> 'k \<Rightarrow> bool" where
  "dict_has d k = (k \<in> set (map fst d))"

text \<open>\<^verbatim>\<open>d.get(k, dflt)\<close>\<close>

definition dict_get :: "('k, 'v) pydict \<Rightarrow> 'k \<Rightarrow> 'v \<Rightarrow> 'v" where
  "dict_get d k dflt = (case map_of d k of Some v \<Rightarrow> v | None \<Rightarrow> dflt)"

text \<open>
  \<^verbatim>\<open>d[k]\<close> as a read. Python raises \<^verbatim>\<open>KeyError\<close> on a missing key; every read below is of a
  key the source has just taken from the dictionary itself or has checked with \<^verbatim>\<open>in\<close>, so
  the missing-key case is left unspecified rather than given a value.
\<close>

definition dict_item :: "('k, 'v) pydict \<Rightarrow> 'k \<Rightarrow> 'v" where
  "dict_item d k = the (map_of d k)"

text \<open>\<^verbatim>\<open>d[k] = v\<close>: an existing key keeps its position, a new key goes last.\<close>

primrec dict_set :: "('k, 'v) pydict \<Rightarrow> 'k \<Rightarrow> 'v \<Rightarrow> ('k, 'v) pydict" where
  "dict_set [] k v = [(k, v)]"
| "dict_set (p # ps) k v = (if fst p = k then (k, v) # ps else p # dict_set ps k v)"

text \<open>\<^verbatim>\<open>del d[k]\<close>\<close>

definition dict_del :: "('k, 'v) pydict \<Rightarrow> 'k \<Rightarrow> ('k, 'v) pydict" where
  "dict_del d k = filter (\<lambda>p. fst p \<noteq> k) d"

text \<open>\<^verbatim>\<open>min(xs)\<close> and \<^verbatim>\<open>max(xs)\<close>; Python raises on the empty list, which no caller passes.\<close>

fun py_min :: "int list \<Rightarrow> int" where
  "py_min (x # xs) = fold min xs x"

fun py_max :: "int list \<Rightarrow> int" where
  "py_max (x # xs) = fold max xs x"

text \<open>\<^verbatim>\<open>min(xs, key=f)\<close>: the first element whose key is minimal.\<close>

fun min_key_from :: "('a \<Rightarrow> int) \<Rightarrow> 'a \<Rightarrow> 'a list \<Rightarrow> 'a" where
  "min_key_from f m [] = m"
| "min_key_from f m (x # xs) = (if f x < f m then min_key_from f x xs else min_key_from f m xs)"

fun py_min_key :: "('a \<Rightarrow> int) \<Rightarrow> 'a list \<Rightarrow> 'a" where
  "py_min_key f (x # xs) = min_key_from f x xs"

text \<open>\<^verbatim>\<open>sorted(xs, key=f)\<close>: ascending and stable, as insertion sort by key is.\<close>

definition py_sorted :: "('a \<Rightarrow> int \<times> int) \<Rightarrow> 'a list \<Rightarrow> 'a list" where
  "py_sorted f xs = sort_key f xs"

text \<open>\<^verbatim>\<open>xs.index(x)\<close> inside \<^verbatim>\<open>try ... except ValueError: -1\<close>.\<close>

fun index_or_minus1 :: "'a list \<Rightarrow> 'a \<Rightarrow> int" where
  "index_or_minus1 [] x = - 1"
| "index_or_minus1 (y # ys) x =
     (if y = x then 0
      else (let r = index_or_minus1 ys x in if r < 0 then - 1 else r + 1))"

section \<open>The turn manager (\<^verbatim>\<open>turn_manager.py\<close>)\<close>

text \<open>
  The fields of \<^verbatim>\<open>TurnManager\<close> that scheduling reads or writes. \<open>turn_history\<close> is the
  deque of names; only its length is ever read. \<open>player_name\<close> is \<^verbatim>\<open>None\<close> until a player
  registers.
\<close>

record turn_manager =
  time_units :: "(string, int) pydict"
  turn_history :: "string list"
  last_turn_time :: "(string, int) pydict"
  player_name :: "string option"
  god_mode :: bool
  turn_mode :: string
  new_memories_count :: "(string, int) pydict"

definition init_turn_manager :: turn_manager where
  "init_turn_manager =
     \<lparr>time_units = [], turn_history = [], last_turn_time = [], player_name = None,
      god_mode = False, turn_mode = ''time_units'', new_memories_count = []\<rparr>"

definition set_turn_mode :: "turn_manager \<Rightarrow> string \<Rightarrow> bool \<times> turn_manager" where
  "set_turn_mode st mode =
     (if mode = ''time_units'' \<or> mode = ''memories'' then (True, st\<lparr>turn_mode := mode\<rparr>)
      else (False, st))"

definition register_character :: "turn_manager \<Rightarrow> string \<Rightarrow> bool \<Rightarrow> turn_manager" where
  "register_character st name is_player =
     (if \<not> dict_has (time_units st) name then
        (let st1 = st\<lparr>time_units := dict_set (time_units st) name (if is_player then 0 else 1),
                       last_turn_time := dict_set (last_turn_time st) name 0,
                       new_memories_count := dict_set (new_memories_count st) name 0\<rparr>
         in if is_player then st1\<lparr>player_name := Some name\<rparr> else st1)
      else st)"

definition set_god_mode :: "turn_manager \<Rightarrow> bool \<Rightarrow> turn_manager" where
  "set_god_mode st enabled = st\<lparr>god_mode := enabled\<rparr>"

definition remove_character :: "turn_manager \<Rightarrow> string \<Rightarrow> turn_manager" where
  "remove_character st name =
     (if dict_has (time_units st) name then
        st\<lparr>time_units := dict_del (time_units st) name,
           last_turn_time := dict_del (last_turn_time st) name,
           new_memories_count := dict_del (new_memories_count st) name\<rparr>
      else st)"

definition increment_memory_count :: "turn_manager \<Rightarrow> string \<Rightarrow> int \<Rightarrow> turn_manager" where
  "increment_memory_count st character count =
     (if dict_has (new_memories_count st) character then
        st\<lparr>new_memories_count :=
             dict_set (new_memories_count st) character
               (dict_item (new_memories_count st) character + count)\<rparr>
      else st)"

text \<open>\<^verbatim>\<open>self.god_mode and self.player_name in self.time_units\<close>\<close>

definition god_player_registered :: "turn_manager \<Rightarrow> bool" where
  "god_player_registered st =
     (god_mode st \<and>
      (case player_name st of None \<Rightarrow> False | Some p \<Rightarrow> dict_has (time_units st) p))"

text \<open>The two sort keys, as the lambdas of the source build them.\<close>

definition tu_key :: "turn_manager \<Rightarrow> string \<Rightarrow> int \<times> int" where
  "tu_key st c = (dict_item (time_units st) c, dict_get (last_turn_time st) c 0)"

definition memories_key :: "turn_manager \<Rightarrow> string \<Rightarrow> int \<times> int" where
  "memories_key st c = (- dict_get (new_memories_count st) c 0, dict_get (last_turn_time st) c 0)"

definition get_next_character_by_tu :: "turn_manager \<Rightarrow> string" where
  "get_next_character_by_tu st =
     (let min_tu = py_min (dict_values (time_units st));
          candidates = map fst (filter (\<lambda>p. snd p = min_tu) (time_units st))
      in if length candidates = 1 then candidates ! 0
         else py_min_key (\<lambda>c. dict_get (last_turn_time st) c 0) candidates)"

definition get_next_character_by_memories :: "turn_manager \<Rightarrow> string" where
  "get_next_character_by_memories st =
     (if god_player_registered st then the (player_name st)
      else
        (let candidates =
               (if list_ex (\<lambda>count. count > 0) (dict_values (new_memories_count st)) then
                  (let max_memories = py_max (dict_values (new_memories_count st))
                   in map fst (filter (\<lambda>p. snd p = max_memories \<and> snd p > 0)
                                 (new_memories_count st)))
                else dict_keys (time_units st))
         in if length candidates = 1 then candidates ! 0
            else py_min_key (\<lambda>c. dict_get (last_turn_time st) c 0) candidates))"

text \<open>\<^verbatim>\<open>get_next_character\<close> returns \<^verbatim>\<open>None\<close> when nobody is registered.\<close>

definition get_next_character :: "turn_manager \<Rightarrow> string option" where
  "get_next_character st =
     (if time_units st = [] then None
      else if turn_mode st = ''memories'' then Some (get_next_character_by_memories st)
      else Some (get_next_character_by_tu st))"

definition normalize_tu :: "turn_manager \<Rightarrow> turn_manager" where
  "normalize_tu st =
     (if time_units st = [] then st
      else
        (let min_tu = py_min (dict_values (time_units st))
         in if min_tu > 0
            then st\<lparr>time_units := map (\<lambda>p. (fst p, snd p - min_tu)) (time_units st)\<rparr>
            else st))"

definition get_turn_order_by_tu :: "turn_manager \<Rightarrow> string list" where
  "get_turn_order_by_tu st =
     (if god_player_registered st then
        (let other_chars = filter (\<lambda>c. Some c \<noteq> player_name st) (dict_keys (time_units st));
             sorted_other = py_sorted (tu_key st) other_chars
         in the (player_name st) # sorted_other)
      else py_sorted (tu_key st) (dict_keys (time_units st)))"

definition get_turn_order_by_memories :: "turn_manager \<Rightarrow> string list" where
  "get_turn_order_by_memories st =
     (if god_player_registered st then
        (let other_chars = filter (\<lambda>c. Some c \<noteq> player_name st) (dict_keys (time_units st));
             sorted_other = py_sorted (memories_key st) other_chars
         in the (player_name st) # sorted_other)
      else py_sorted (memories_key st) (dict_keys (time_units st)))"

definition get_turn_order :: "turn_manager \<Rightarrow> string list" where
  "get_turn_order st =
     (if turn_mode st = ''memories'' then get_turn_order_by_memories st
      else get_turn_order_by_tu st)"

text \<open>
  The cost that \<^verbatim>\<open>add_time_units\<close> adds for an actor that is not the god-mode player: the
  \<^verbatim>\<open>else\<close> branch of the source up to, not including, the assignment to \<^verbatim>\<open>time_units\<close>.
\<close>

definition adjusted_cost :: "turn_manager \<Rightarrow> string \<Rightarrow> int \<Rightarrow> int" where
  "adjusted_cost st character tu_cost =
     (let turn_order = get_turn_order st;
          current_index = index_or_minus1 turn_order character
      in if Some character = player_name st then
           (if length turn_order > 1 \<and> current_index = 0 then
              (let next_char = turn_order ! 1;
                   next_tu = dict_item (time_units st) next_char;
                   capped_cost = max 1 (next_tu - dict_item (time_units st) character + 1)
               in min tu_cost capped_cost)
            else tu_cost)
         else
           (let pass_cost =
                  (if length turn_order > 1 \<and> current_index = 0 then
                     (let next_char = turn_order ! 1;
                          next_tu = dict_item (time_units st) next_char
                      in next_tu - dict_item (time_units st) character + 1)
                   else 0)
            in max tu_cost pass_cost))"

definition add_time_units :: "turn_manager \<Rightarrow> string \<Rightarrow> int \<Rightarrow> turn_manager" where
  "add_time_units st character tu_cost =
     (if \<not> dict_has (time_units st) character then st
      else
        (let st1 =
               (if god_mode st \<and> Some character = player_name st then st
                else st\<lparr>time_units :=
                          dict_set (time_units st) character
                            (dict_item (time_units st) character
                             + adjusted_cost st character tu_cost)\<rparr>);
             st2 = st1\<lparr>turn_history := turn_history st1 @ [character]\<rparr>;
             st3 = st2\<lparr>last_turn_time :=
                         dict_set (last_turn_time st2) character (int (length (turn_history st2)))\<rparr>;
             st4 = st3\<lparr>new_memories_count := dict_set (new_memories_count st3) character 0\<rparr>
         in normalize_tu st4))"

text \<open>The tail of a successful \<^verbatim>\<open>pass_turn\<close>: history, last turn time, normalisation.\<close>

definition pass_turn_finish :: "turn_manager \<Rightarrow> string \<Rightarrow> bool \<times> turn_manager" where
  "pass_turn_finish st character =
     (let st1 = st\<lparr>turn_history := turn_history st @ [character]\<rparr>;
          st2 = st1\<lparr>last_turn_time :=
                      dict_set (last_turn_time st1) character (int (length (turn_history st1)))\<rparr>
      in (True, if turn_mode st2 = ''time_units'' then normalize_tu st2 else st2))"

definition pass_turn :: "turn_manager \<Rightarrow> string \<Rightarrow> bool \<times> turn_manager" where
  "pass_turn st character =
     (if god_mode st \<and> Some character = player_name st then (False, st)
      else if dict_has (time_units st) character \<and> length (time_units st) > 1 then
        (if turn_mode st = ''memories'' then
           pass_turn_finish
             (st\<lparr>new_memories_count := dict_set (new_memories_count st) character 0\<rparr>) character
         else
           (let sorted_chars = get_turn_order st
            in if sorted_chars ! 0 \<noteq> character then (False, st)
               else if length sorted_chars > 1 then
                 (let next_char = sorted_chars ! 1;
                      next_tu = dict_item (time_units st) next_char
                  in pass_turn_finish
                       (st\<lparr>time_units := dict_set (time_units st) character (next_tu + 1)\<rparr>)
                       character)
               else
                 pass_turn_finish
                   (st\<lparr>time_units :=
                        dict_set (time_units st) character
                          (dict_item (time_units st) character + 1)\<rparr>)
                   character))
      else (False, st))"

subsection \<open>Reachable scheduler states used as concrete inputs\<close>

text \<open>A player and one agent, registered as \<^verbatim>\<open>main_gui.py\<close> does (player first).\<close>

definition ex_start :: turn_manager where
  "ex_start =
     register_character (register_character init_turn_manager ''Player'' True) ''Agent'' False"

text \<open>The player has acted at cost 2: the table is Player 1, Agent 0.\<close>

definition ex_player_acted :: turn_manager where
  "ex_player_acted = add_time_units ex_start ''Player'' 2"

text \<open>God mode is switched on at that point.\<close>

definition ex_god_late :: turn_manager where
  "ex_god_late = set_god_mode ex_player_acted True"

text \<open>Instead, the agent has acted at cost 5: the table is Player 0, Agent 4.\<close>

definition ex_agent_acted :: turn_manager where
  "ex_agent_acted = add_time_units ex_player_acted ''Agent'' 5"

text \<open>Memories mode; the agent has perceived two events and the player one.\<close>

definition ex_memories :: turn_manager where
  "ex_memories =
     increment_memory_count
       (increment_memory_count (snd (set_turn_mode ex_start ''memories'')) ''Agent'' 2)
       ''Player'' 1"

section \<open>Strings\<close>

text \<open>
  A Python \<^verbatim>\<open>str\<close> is modelled as a \<open>string\<close> holding its UTF-8 bytes. Substring search,
  prefix tests and splitting at an ASCII character give the same answers on the bytes as on
  the code points. Whitespace and letter case are those of ASCII: a non-ASCII character is
  neither whitespace nor cased in the model.
\<close>

text \<open>\<^verbatim>\<open>s.startswith(p)\<close>\<close>

definition starts_with :: "string \<Rightarrow> string \<Rightarrow> bool" where
  "starts_with s p = (take (length p) s = p)"

text \<open>\<^verbatim>\<open>sub in s\<close>\<close>

primrec str_contains :: "string \<Rightarrow> string \<Rightarrow> bool" where
  "str_contains [] sub = (sub = [])"
| "str_contains (c # cs) sub = (starts_with (c # cs) sub \<or> str_contains cs sub)"

text \<open>The warning sign U+26A0 that marks an error message, as its three UTF-8 bytes.\<close>

definition warning_sign :: string where
  "warning_sign = [CHR 0xE2, CHR 0x9A, CHR 0xA0]"

section \<open>The event dispatcher (\<^verbatim>\<open>core/event_dispatcher.py\<close>)\<close>

text \<open>
  The event dictionary, one optional field per key that the dispatcher or the event bus
  reads or writes; a missing key is \<open>None\<close>. \<open>ed_observer_locations\<close> is the nested
  dictionary from character to location that \<^verbatim>\<open>World.notify_location\<close> attaches. The last
  four keys are written by the router: the two movement descriptions and \<^verbatim>\<open>'is_actor'\<close> by
  the event bus, \<^verbatim>\<open>'observer'\<close> by both on the copy handed to a callback.
\<close>

record event_data =
  ed_actor :: "string option"
  ed_location :: "string option"
  ed_message :: "string option"
  ed_description :: "string option"
  ed_origin :: "string option"
  ed_destination :: "string option"
  ed_via :: "string option"
  ed_action :: "string option"
  ed_observer_locations :: "(string, string) pydict option"
  ed_origin_description :: "string option"
  ed_destination_description :: "string option"
  ed_is_actor :: "bool option"
  ed_observer :: "string option"

text \<open>\<^verbatim>\<open>d.get(key, default)\<close> on an optional field.\<close>

definition get_or :: "'a option \<Rightarrow> 'a \<Rightarrow> 'a" where
  "get_or field dflt = (case field of Some v \<Rightarrow> v | None \<Rightarrow> dflt)"

text \<open>\<^verbatim>\<open>event_data.get('observer_locations', {}).get(character)\<close>\<close>

definition observer_location :: "event_data \<Rightarrow> string \<Rightarrow> string option" where
  "observer_location ed character =
     (case ed_observer_locations ed of None \<Rightarrow> None | Some locs \<Rightarrow> map_of locs character)"

text \<open>
  A callback is an opaque value of type \<open>'cb\<close>. Calling it is recorded: which callback,
  and the three arguments, the third being the copy of the event dictionary with its
  \<^verbatim>\<open>'observer'\<close> entry set.
\<close>

record 'cb callback_call =
  call_target :: 'cb
  call_event_type :: string
  call_text :: string
  call_data :: event_data

definition empty_event_data :: event_data where
  "empty_event_data =
     \<lparr>ed_actor = None, ed_location = None, ed_message = None, ed_description = None,
      ed_origin = None, ed_destination = None, ed_via = None, ed_action = None,
      ed_observer_locations = None, ed_origin_description = None,
      ed_destination_description = None, ed_is_actor = None, ed_observer = None\<rparr>"

text \<open>The observer a recorded call was made for: the \<^verbatim>\<open>'observer'\<close> entry of its data.\<close>

definition call_observer :: "'cb callback_call \<Rightarrow> string option" where
  "call_observer c = ed_observer (call_data c)"

record 'cb event_dispatcher =
  observers :: "(string, 'cb) pydict"

definition init_event_dispatcher :: "'cb event_dispatcher" where
  "init_event_dispatcher = \<lparr>observers = []\<rparr>"

definition dispatcher_register :: "'cb event_dispatcher \<Rightarrow> string \<Rightarrow> 'cb \<Rightarrow> 'cb event_dispatcher" where
  "dispatcher_register d character_name callback =
     d\<lparr>observers := dict_set (observers d) character_name callback\<rparr>"

definition dispatcher_unregister :: "'cb event_dispatcher \<Rightarrow> string \<Rightarrow> 'cb event_dispatcher" where
  "dispatcher_unregister d character_name =
     (if dict_has (observers d) character_name
      then d\<lparr>observers := dict_del (observers d) character_name\<rparr> else d)"

text \<open>\<^verbatim>\<open>is_error = "\<dots>" in description or "Failed:" in description\<close>\<close>

definition is_error :: "event_data \<Rightarrow> bool" where
  "is_error ed =
     (let description = get_or (ed_description ed) ''''
      in str_contains description warning_sign \<or> str_contains description ''Failed:'')"

text \<open>The first half of \<^verbatim>\<open>dispatch_event\<close>: the list \<^verbatim>\<open>observers_to_notify\<close>.\<close>

definition observers_to_notify :: "'cb event_dispatcher \<Rightarrow> string \<Rightarrow> event_data \<Rightarrow> string list" where
  "observers_to_notify d event_type ed =
     (let actor = get_or (ed_actor ed) ''unknown'';
          location = get_or (ed_location ed) ''unknown'';
          origin = ed_origin ed;
          destination = ed_destination ed
      in if is_error ed then
           (if dict_has (observers d) actor then [actor] else [])
         else if event_type = ''shout'' then dict_keys (observers d)
         else if event_type = ''movement'' then
           filter (\<lambda>character.
                     observer_location ed character = origin
                     \<or> observer_location ed character = destination)
             (dict_keys (observers d))
         else
           filter (\<lambda>character. observer_location ed character = Some location)
             (dict_keys (observers d)))"

text \<open>\<^verbatim>\<open>_format_for_observer\<close>\<close>

definition format_for_observer :: "string \<Rightarrow> event_data \<Rightarrow> string \<Rightarrow> string" where
  "format_for_observer event_type ed observer =
     (let actor = get_or (ed_actor ed) ''unknown'';
          message = get_or (ed_message ed) '''';
          description = get_or (ed_description ed) '''';
          fallback = (if str_contains description ''You say:'' \<and> observer \<noteq> actor then ''''
                      else description)
      in if str_contains message warning_sign \<and> observer \<noteq> actor then ''''
         else if str_contains message ''You say:'' \<and> observer \<noteq> actor then ''''
         else if event_type = ''speech'' then
           (if observer = actor then ''''
            else actor @ '' says: '' @ [CHR 0x22] @ message @ [CHR 0x22])
         else if event_type = ''shout'' then
           (if observer = actor then ''''
            else actor @ '' shouts from '' @ get_or (ed_location ed) ''somewhere'' @ '': ''
                 @ [CHR 0x22] @ message @ [CHR 0x22])
         else if event_type = ''emote'' then
           (if observer = actor then ''''
            else actor @ '' '' @ get_or (ed_action ed) '''')
         else if event_type = ''movement'' then
           (let origin = get_or (ed_origin ed) ''somewhere'';
                destination = get_or (ed_destination ed) ''somewhere'';
                via = get_or (ed_via ed) ''moved''
            in if observer = actor then ''''
               else if observer_location ed observer = Some origin then
                 actor @ '' '' @ via @ '' to '' @ destination @ ''.''
               else if observer_location ed observer = Some destination then
                 actor @ '' '' @ via @ '' from '' @ origin @ ''.''
               else fallback)
         else if event_type = ''observation'' then
           (if observer = actor then ''''
            else actor @ '' '' @ get_or (ed_action ed) '''')
         else if event_type = ''command'' then
           (if observer \<noteq> actor then '''' else description)
         else fallback)"

text \<open>The second half of \<^verbatim>\<open>dispatch_event\<close>: the loop over \<^verbatim>\<open>observers_to_notify\<close>.\<close>

fun dispatch_loop ::
  "'cb event_dispatcher \<Rightarrow> string \<Rightarrow> event_data \<Rightarrow> string list \<Rightarrow> 'cb callback_call list" where
  "dispatch_loop d event_type ed [] = []"
| "dispatch_loop d event_type ed (observer # rest) =
     (if observer = get_or (ed_actor ed) ''unknown''
         \<and> (event_type = ''speech'' \<or> event_type = ''shout'' \<or> event_type = ''emote'')
      then dispatch_loop d event_type ed rest
      else
        (let observer_message = format_for_observer event_type ed observer
         in if observer_message = '''' then dispatch_loop d event_type ed rest
            else
              (case map_of (observers d) observer of
                 Some callback \<Rightarrow>
                   \<lparr>call_target = callback, call_event_type = event_type,
                    call_text = observer_message,
                    call_data = ed\<lparr>ed_observer := Some observer\<rparr>\<rparr>
                   # dispatch_loop d event_type ed rest
               | None \<Rightarrow> dispatch_loop d event_type ed rest)))"

text \<open>
  \<^verbatim>\<open>dispatch_event\<close> returns the callback calls it makes, in order. It writes nothing:
  the dispatcher is the same before and after.
\<close>

definition dispatch_event :: "'cb event_dispatcher \<Rightarrow> string \<Rightarrow> event_data \<Rightarrow> 'cb callback_call list" where
  "dispatch_event d event_type ed = dispatch_loop d event_type ed (observers_to_notify d event_type ed)"

section \<open>The event bus (\<^verbatim>\<open>core/event_bus.py\<close>)\<close>

subsection \<open>String helpers\<close>

text \<open>ASCII whitespace, as \<^verbatim>\<open>\s\<close> and \<^verbatim>\<open>str.strip\<close> see it.\<close>

definition is_space :: "char \<Rightarrow> bool" where
  "is_space c =
     (c = CHR 0x20 \<or> c = CHR 0x09 \<or> c = CHR 0x0A \<or> c = CHR 0x0B \<or> c = CHR 0x0C \<or> c = CHR 0x0D
      \<or> c = CHR 0x1C \<or> c = CHR 0x1D \<or> c = CHR 0x1E \<or> c = CHR 0x1F)"

text \<open>
  \<^verbatim>\<open>re.sub(r'^\[[^\]]+\](\s+in\s+[^:]+):\s+', '', s)\<close>. The pattern is anchored, so it matches
  at most once, at the start: an opening bracket, one or more characters up to the first
  closing bracket, whitespace, \<^verbatim>\<open>in\<close>, then up to the first colon a run of at least two
  characters that starts with whitespace, the colon, and all the whitespace (at least one
  character) that follows. A string that does not match is returned as it is.
\<close>

definition strip_event_prefix :: "string \<Rightarrow> string" where
  "strip_event_prefix s =
     (case s of
        [] \<Rightarrow> s
      | c # r1 \<Rightarrow>
          if c \<noteq> CHR ''['' then s
          else
            (let label = takeWhile (\<lambda>x. x \<noteq> CHR '']'') r1;
                 r2 = dropWhile (\<lambda>x. x \<noteq> CHR '']'') r1
             in if label = [] \<or> r2 = [] then s
                else
                  (let r3 = tl r2;
                       r4 = dropWhile is_space r3
                   in if takeWhile is_space r3 = [] \<or> \<not> starts_with r4 ''in'' then s
                      else
                        (let r5 = drop 2 r4;
                             place = takeWhile (\<lambda>x. x \<noteq> CHR '':'') r5;
                             r6 = dropWhile (\<lambda>x. x \<noteq> CHR '':'') r5
                         in if r6 = [] \<or> length place < 2 \<or> \<not> is_space (hd place) then s
                            else
                              (let r7 = tl r6
                               in if takeWhile is_space r7 = [] then s
                                  else dropWhile is_space r7)))))"

text \<open>\<^verbatim>\<open>s.replace(old, new)\<close>: every non-overlapping occurrence, left to right.\<close>

fun replace_from :: "string \<Rightarrow> string \<Rightarrow> nat \<Rightarrow> string \<Rightarrow> string" where
  "replace_from old new skip [] = []"
| "replace_from old new (Suc k) (c # cs) = replace_from old new k cs"
| "replace_from old new 0 (c # cs) =
     (if starts_with (c # cs) old then new @ replace_from old new (length old - 1) cs
      else c # replace_from old new 0 cs)"

definition str_replace :: "string \<Rightarrow> string \<Rightarrow> string \<Rightarrow> string" where
  "str_replace s old new =
     (if old = [] then new @ concat (map (\<lambda>c. c # new) s) else replace_from old new 0 s)"

subsection \<open>The clock\<close>

text \<open>
  \<^verbatim>\<open>datetime.now()\<close> is an input: a reading \<open>now\<close> in microseconds, counted from a local
  midnight. One call of \<^verbatim>\<open>publish\<close> reads the clock several times; the model gives all
  reads of one call the same value. \<^verbatim>\<open>(a - b).total_seconds() < expiry\<close> is
  \<open>a - b < expiry * 1000000\<close>.
\<close>

definition two_digits :: "nat \<Rightarrow> string" where
  "two_digits n = [char_of (48 + n div 10), char_of (48 + n mod 10)]"

text \<open>\<^verbatim>\<open>now.strftime("%H:%M:%S")\<close>\<close>

definition strftime_hms :: "int \<Rightarrow> string" where
  "strftime_hms now =
     (let s = nat ((now div 1000000) mod 86400)
      in two_digits (s div 3600) @ '':'' @ two_digits (s div 60 mod 60) @ '':''
         @ two_digits (s mod 60))"

subsection \<open>State and registry\<close>

text \<open>
  \<open>bus_observers\<close> and \<open>observer_recent_events\<close> are \<^verbatim>\<open>defaultdict(list)\<close>s: reading a key
  that is missing first stores an empty list under it.
\<close>

record 'cb event_bus =
  bus_observers :: "(string, 'cb list) pydict"
  recent_events :: "(string, int) pydict"
  observer_recent_events :: "(string, (string \<times> int) list) pydict"
  event_expiry :: int

definition init_event_bus :: "'cb event_bus" where
  "init_event_bus =
     \<lparr>bus_observers = [], recent_events = [], observer_recent_events = [], event_expiry = 3\<rparr>"

text \<open>\<^verbatim>\<open>dd[k]\<close> on a \<^verbatim>\<open>defaultdict(list)\<close>: the dictionary after the read, and the value.\<close>

definition defaultdict_touch :: "('k, 'v list) pydict \<Rightarrow> 'k \<Rightarrow> ('k, 'v list) pydict" where
  "defaultdict_touch d k = (if dict_has d k then d else dict_set d k [])"

definition bus_register :: "'cb event_bus \<Rightarrow> string \<Rightarrow> 'cb \<Rightarrow> 'cb event_bus" where
  "bus_register bus character_name callback =
     (let obs = defaultdict_touch (bus_observers bus) character_name
      in if callback \<notin> set (dict_item obs character_name)
         then bus\<lparr>bus_observers :=
                    dict_set obs character_name (dict_item obs character_name @ [callback])\<rparr>
         else bus\<lparr>bus_observers := obs\<rparr>)"

definition bus_unregister :: "'cb event_bus \<Rightarrow> string \<Rightarrow> 'cb option \<Rightarrow> 'cb event_bus" where
  "bus_unregister bus character_name callback =
     (case callback of
        None \<Rightarrow>
          (if dict_has (bus_observers bus) character_name
           then bus\<lparr>bus_observers := dict_del (bus_observers bus) character_name\<rparr> else bus)
      | Some cb \<Rightarrow>
          (if dict_has (bus_observers bus) character_name
              \<and> cb \<in> set (dict_item (bus_observers bus) character_name)
           then bus\<lparr>bus_observers :=
                      dict_set (bus_observers bus) character_name
                        (remove1 cb (dict_item (bus_observers bus) character_name))\<rparr>
           else bus))"

subsection \<open>Deduplication\<close>

text \<open>
  \<^verbatim>\<open>create_fingerprint\<close>. The digest \<^verbatim>\<open>hashlib.md5(...).hexdigest()\<close> is the parameter
  \<open>md5\<close>: nothing below depends on which function it is.
\<close>

definition create_fingerprint ::
  "(string \<Rightarrow> string) \<Rightarrow> int \<Rightarrow> string \<Rightarrow> string \<Rightarrow> event_data \<Rightarrow> string" where
  "create_fingerprint md5 now event_type description ed =
     (let clean_description = strip_event_prefix description;
          actor = get_or (ed_actor ed) ''unknown'';
          location = get_or (ed_location ed) ''unknown'';
          timestamp = strftime_hms now
      in md5 (event_type @ '':'' @ actor @ '':'' @ clean_description @ '':'' @ location
              @ '':'' @ timestamp))"

definition is_recent_duplicate :: "int \<Rightarrow> 'cb event_bus \<Rightarrow> string \<Rightarrow> bool" where
  "is_recent_duplicate now bus fingerprint =
     (case map_of (recent_events bus) fingerprint of
        Some ts \<Rightarrow> now - ts < event_expiry bus * 1000000
      | None \<Rightarrow> False)"

text \<open>\<^verbatim>\<open>observer_has_seen_event\<close> prunes the observer's list before it looks.\<close>

definition observer_has_seen_event ::
  "int \<Rightarrow> 'cb event_bus \<Rightarrow> string \<Rightarrow> string \<Rightarrow> 'cb event_bus \<times> bool" where
  "observer_has_seen_event now bus observer fingerprint =
     (let seen = defaultdict_touch (observer_recent_events bus) observer;
          kept = filter (\<lambda>e. now - snd e < event_expiry bus * 1000000) (dict_item seen observer)
      in (bus\<lparr>observer_recent_events := dict_set seen observer kept\<rparr>,
          list_ex (\<lambda>e. fst e = fingerprint) kept))"

definition record_observer_event :: "int \<Rightarrow> 'cb event_bus \<Rightarrow> string \<Rightarrow> string \<Rightarrow> 'cb event_bus" where
  "record_observer_event now bus observer fingerprint =
     (let seen = defaultdict_touch (observer_recent_events bus) observer
      in bus\<lparr>observer_recent_events :=
               dict_set seen observer (dict_item seen observer @ [(fingerprint, now)])\<rparr>)"

definition cleanup_old_events :: "int \<Rightarrow> 'cb event_bus \<Rightarrow> 'cb event_bus" where
  "cleanup_old_events now bus =
     bus\<lparr>recent_events :=
           filter (\<lambda>e. \<not> (now - snd e \<ge> event_expiry bus * 1000000)) (recent_events bus)\<rparr>"

subsection \<open>Publishing\<close>

text \<open>Python truthiness of \<^verbatim>\<open>data.get(key)\<close>: present and not the empty string.\<close>

definition truthy :: "string option \<Rightarrow> bool" where
  "truthy v = (case v of None \<Rightarrow> False | Some s \<Rightarrow> s \<noteq> [])"

text \<open>The list \<^verbatim>\<open>observers_to_notify\<close> of \<^verbatim>\<open>publish\<close>.\<close>

definition bus_observers_to_notify :: "'cb event_bus \<Rightarrow> string \<Rightarrow> event_data \<Rightarrow> string list" where
  "bus_observers_to_notify bus event_type ed =
     (let event_location = ed_location ed
      in if event_type = ''shout'' then dict_keys (bus_observers bus)
         else if event_type = ''movement'' then
           (let origin = ed_origin ed; destination = ed_destination ed
            in if truthy origin \<and> truthy destination then
                 filter (\<lambda>observer.
                           observer_location ed observer = origin
                           \<or> observer_location ed observer = destination)
                   (dict_keys (bus_observers bus))
               else [])
         else
           filter (\<lambda>observer. observer_location ed observer = event_location)
             (dict_keys (bus_observers bus)))"

text \<open>\<^verbatim>\<open>EventBus.format_for_observer\<close>\<close>

definition bus_format_for_observer :: "string \<Rightarrow> string \<Rightarrow> event_data \<Rightarrow> string" where
  "bus_format_for_observer observer description ed =
     (let actor = get_or (ed_actor ed) ''unknown''
      in if observer = actor then
           (let d1 = str_replace description (actor @ '' '') ''You '';
                d2 = str_replace d1 '' says:'' '' say:'';
                d3 = str_replace d2 '' says'' '' say'';
                d4 = str_replace d3 '' goes '' '' go '';
                d5 = str_replace d4 '' looks '' '' look ''
            in str_replace d5 '' examines '' '' examine '')
         else description)"

definition prepare_data_for_observer :: "string \<Rightarrow> event_data \<Rightarrow> event_data" where
  "prepare_data_for_observer observer ed =
     ed\<lparr>ed_is_actor := Some (observer = get_or (ed_actor ed) ''unknown''),
        ed_observer := Some observer\<rparr>"

text \<open>
  The text an observer is given: for a movement the description written for the origin or
  for the destination, otherwise \<^verbatim>\<open>format_for_observer\<close>.
\<close>

definition bus_formatted_description :: "string \<Rightarrow> string \<Rightarrow> event_data \<Rightarrow> string \<Rightarrow> string" where
  "bus_formatted_description event_type description ed observer =
     (if event_type = ''movement'' then
        (if observer_location ed observer = ed_origin ed
         then get_or (ed_origin_description ed) description
         else get_or (ed_destination_description ed) description)
      else bus_format_for_observer observer description ed)"

text \<open>\<^verbatim>\<open>for callback in self.observers[observer]: callback(...)\<close>\<close>

definition bus_calls_for ::
  "'cb event_bus \<Rightarrow> string \<Rightarrow> string \<Rightarrow> event_data \<Rightarrow> string \<Rightarrow> 'cb callback_call list" where
  "bus_calls_for bus event_type description ed observer =
     map (\<lambda>callback.
            \<lparr>call_target = callback, call_event_type = event_type,
             call_text = bus_formatted_description event_type description ed observer,
             call_data = prepare_data_for_observer observer ed\<rparr>)
       (dict_item (bus_observers bus) observer)"

text \<open>The loop \<^verbatim>\<open>for observer in observers_to_notify\<close> of \<^verbatim>\<open>publish\<close>.\<close>

fun bus_notify_loop ::
  "int \<Rightarrow> string \<Rightarrow> string \<Rightarrow> string \<Rightarrow> event_data \<Rightarrow> 'cb event_bus \<Rightarrow> string list
     \<Rightarrow> 'cb event_bus \<times> 'cb callback_call list" where
  "bus_notify_loop now fingerprint event_type description ed bus [] = (bus, [])"
| "bus_notify_loop now fingerprint event_type description ed bus (observer # rest) =
     (let (bus1, seen) = observer_has_seen_event now bus observer fingerprint
      in if seen then bus_notify_loop now fingerprint event_type description ed bus1 rest
         else
           (let bus2 = record_observer_event now bus1 observer fingerprint;
                calls = bus_calls_for bus2 event_type description ed observer;
                (bus3, more) = bus_notify_loop now fingerprint event_type description ed bus2 rest
            in (bus3, calls @ more)))"

text \<open>
  The first lines of \<^verbatim>\<open>publish\<close>: the description with a nested event prefix removed, and
  the event dictionary, to which a movement adds its two descriptions. A missing key
  formatted into an f-string prints as \<^verbatim>\<open>None\<close>.
\<close>

definition publish_description :: "string \<Rightarrow> string \<Rightarrow> string" where
  "publish_description event_type description =
     (if starts_with description (''['' @ event_type @ '']'')
         \<or> (str_contains description ''['' \<and> str_contains description ''in''
             \<and> str_contains description '':'')
      then strip_event_prefix description else description)"

definition publish_data :: "string \<Rightarrow> event_data \<Rightarrow> event_data" where
  "publish_data event_type ed =
     (if event_type = ''movement'' then
        (let actor = get_or (ed_actor ed) ''Someone'';
             origin = get_or (ed_origin ed) ''None'';
             destination = get_or (ed_destination ed) ''None'';
             via = get_or (ed_via ed) ''moved''
         in ed\<lparr>ed_origin_description :=
                  Some (actor @ '' '' @ via @ '' to '' @ destination @ ''.''),
                ed_destination_description :=
                  Some (actor @ '' '' @ via @ '' from '' @ origin @ ''.'')\<rparr>)
      else ed)"

definition publish_fingerprint ::
  "(string \<Rightarrow> string) \<Rightarrow> int \<Rightarrow> string \<Rightarrow> string \<Rightarrow> event_data \<Rightarrow> string" where
  "publish_fingerprint md5 now event_type description ed =
     create_fingerprint md5 now event_type (publish_description event_type description)
       (publish_data event_type ed)"

text \<open>\<^verbatim>\<open>publish\<close>: the bus afterwards and the callback calls made, in order.\<close>

definition bus_publish ::
  "(string \<Rightarrow> string) \<Rightarrow> int \<Rightarrow> 'cb event_bus \<Rightarrow> string \<Rightarrow> string \<Rightarrow> event_data
     \<Rightarrow> 'cb event_bus \<times> 'cb callback_call list" where
  "bus_publish md5 now bus event_type description0 ed0 =
     (let description = publish_description event_type description0;
          ed = publish_data event_type ed0;
          fingerprint = publish_fingerprint md5 now event_type description0 ed0
      in if is_recent_duplicate now bus fingerprint then (bus, [])
         else
           (let bus1 = bus\<lparr>recent_events := dict_set (recent_events bus) fingerprint now\<rparr>;
                bus2 = cleanup_old_events now bus1
            in bus_notify_loop now fingerprint event_type description ed bus2
                 (bus_observers_to_notify bus2 event_type ed)))"

text \<open>
  Two conditions on a bus. \<open>bus_ok\<close>: the registry has distinct keys and no callback twice
  under one key, as \<^verbatim>\<open>register\<close> keeps it. \<open>bus_stamps_le bus t\<close>: no recorded timestamp is
  later than \<open>t\<close>, as is the case at time \<open>t\<close> when the clock never runs backwards.
\<close>

definition bus_ok :: "'cb event_bus \<Rightarrow> bool" where
  "bus_ok bus =
     (dict_ok (bus_observers bus) \<and> list_all (\<lambda>p. distinct (snd p)) (bus_observers bus))"

definition bus_stamps_le :: "'cb event_bus \<Rightarrow> int \<Rightarrow> bool" where
  "bus_stamps_le bus t =
     (list_all (\<lambda>e. snd e \<le> t) (recent_events bus)
      \<and> list_all (\<lambda>p. list_all (\<lambda>e. snd e \<le> t) (snd p)) (observer_recent_events bus))"

subsection \<open>A small world used as concrete input\<close>

text \<open>
  Alice and Bob are in the kitchen, Carol is in the garden. Callbacks are numbered: 1 for
  Alice, 2 for Bob, 3 for Carol.
\<close>

definition ex_locations :: "(string, string) pydict" where
  "ex_locations = [(''Alice'', ''Kitchen''), (''Bob'', ''Kitchen''), (''Carol'', ''Garden'')]"

definition ex_dispatcher :: "nat event_dispatcher" where
  "ex_dispatcher =
     dispatcher_register
       (dispatcher_register (dispatcher_register init_event_dispatcher ''Alice'' 1) ''Bob'' 2)
       ''Carol'' 3"

definition ex_bus :: "nat event_bus" where
  "ex_bus = bus_register (bus_register (bus_register init_event_bus ''Alice'' 1) ''Bob'' 2) ''Carol'' 3"

text \<open>Bob says hello in the kitchen.\<close>

definition ex_speech :: event_data where
  "ex_speech =
     empty_event_data\<lparr>ed_actor := Some ''Bob'', ed_location := Some ''Kitchen'',
       ed_message := Some ''hello'', ed_description := Some ''Bob says: hello'',
       ed_observer_locations := Some ex_locations\<rparr>"


text \<open>An event of type \<^verbatim>\<open>error\<close> whose description carries no error marker.\<close>

definition ex_error_unmarked :: event_data where
  "ex_error_unmarked =
     ex_speech\<lparr>ed_message := Some ''tripped'', ed_description := Some ''Bob tripped''\<rparr>"

text \<open>An error description as \<^verbatim>\<open>World.process_command\<close> builds it, with the warning sign.\<close>

definition ex_error_marked :: event_data where
  "ex_error_marked =
     ex_speech\<lparr>ed_message := Some (warning_sign @ '' Could not parse: xyzzy''),
       ed_description := Some (''Bob '' @ warning_sign @ '' Could not parse: xyzzy'')\<rparr>"

text \<open>A stand-in for the MD5 digest in concrete runs: the identity, which never collides.\<close>

definition ex_digest :: "string \<Rightarrow> string" where
  "ex_digest s = s"

section \<open>The streaming turn handler (\<^verbatim>\<open>event_handler.py\<close>)\<close>

subsection \<open>More string operations\<close>

text \<open>\<^verbatim>\<open>s.strip()\<close>\<close>

definition py_strip :: "string \<Rightarrow> string" where
  "py_strip s = rev (dropWhile is_space (rev (dropWhile is_space s)))"




text \<open>The index of the first occurrence of \<open>sub\<close> in \<open>s\<close>, as \<^verbatim>\<open>re.search\<close> of a literal finds it.\<close>

primrec find_sub :: "string \<Rightarrow> string \<Rightarrow> nat option" where
  "find_sub [] sub = (if sub = [] then Some 0 else None)"
| "find_sub (c # cs) sub =
     (if starts_with (c # cs) sub then Some 0 else map_option Suc (find_sub cs sub))"

text \<open>
  The text between the first \<^verbatim>\<open><think>\<close> and the first \<^verbatim>\<open></think>\<close> after it: group 1 of
  \<^verbatim>\<open>re.search(r'<think>(.*?)</think>', s, re.DOTALL)\<close>.
\<close>

definition think_block :: "string \<Rightarrow> string option" where
  "think_block s =
     (case find_sub s ''<think>'' of
        None \<Rightarrow> None
      | Some i \<Rightarrow>
          (let body = drop (i + 7) s
           in case find_sub body ''</think>'' of
                None \<Rightarrow> None
              | Some j \<Rightarrow> Some (take j body)))"





subsection \<open>\<^verbatim>\<open>gui_utils.clean_event_text\<close>\<close>


subsection \<open>Extracting a command\<close>








subsection \<open>State of one turn\<close>

text \<open>
  Work handed to the Tk main loop with \<^verbatim>\<open>root.after\<close>. It runs later, on the main thread;
  the model keeps it in a list until a \<open>RunScheduled\<close> step picks it.
\<close>

datatype ui_task =
    AppendResponseText string
  | UpdateResponseText string
  | ProcessCommandSafely string string
  | SafeProcessFullResponse string string
  | SetStopStreaming

text \<open>
  The fields of \<^verbatim>\<open>EventHandler\<close>, the parts of the GUI object that the callbacks touch,
  and three records of effects: how often \<^verbatim>\<open>turn_completed.set()\<close> and
  \<^verbatim>\<open>llm.cancel_streaming()\<close> were called, and the commands handed to
  \<^verbatim>\<open>process_minimind_action\<close>, in order. The callbacks of one turn run one at a time:
  \<^verbatim>\<open>handle_response_chunk\<close> and \<^verbatim>\<open>handle_response_complete\<close> hold \<^verbatim>\<open>response_lock\<close> for
  their whole body, and each step of the model is one callback run to its end.
\<close>

record stream_state =
  complete_response :: string
  post_thinking_buffer :: string
  thinking_complete :: bool
  command_detected :: bool
  detected_command :: "string option"
  has_early_stopped :: bool
  turn_in_progress :: bool
  stop_streaming :: bool
  active_minimind :: string
  last_command_reason :: "string option"
  thought_chain :: "string option"
  scheduled :: "ui_task list"
  turn_completed_sets :: nat
  cancel_requests :: nat
  processed_actions :: "string list"


definition store_thinking_chain :: "stream_state \<Rightarrow> stream_state" where
  "store_thinking_chain st =
     (case think_block (complete_response st) of
        None \<Rightarrow> st
      | Some chain \<Rightarrow> st\<lparr>thought_chain := Some (py_strip chain)\<rparr>)"

text \<open>A stored reason overwrites \<^verbatim>\<open>last_command_reason\<close>; no reason leaves it.\<close>

definition store_reason :: "string option \<Rightarrow> stream_state \<Rightarrow> stream_state" where
  "store_reason reason st =
     (case reason of None \<Rightarrow> st | Some r \<Rightarrow> st\<lparr>last_command_reason := Some r\<rparr>)"

subsection \<open>\<^verbatim>\<open>handle_response_chunk\<close>\<close>


subsection \<open>\<^verbatim>\<open>clean_llm_response\<close> and \<^verbatim>\<open>handle_response_complete\<close>\<close>





subsection \<open>\<^verbatim>\<open>handle_response_error\<close> and the scheduled work\<close>






subsection \<open>A turn as a sequence of callbacks\<close>












subsection \<open>Turns used as concrete inputs\<close>





section \<open>Properties of the turn manager\<close>

subsection \<open>Dictionary facts\<close>

lemma dict_set_keys:
  "map fst (dict_set d k v) = (if k \<in> set (map fst d) then map fst d else map fst d @ [k])"
  by (induction d) auto

lemma dict_set_map_of: "map_of (dict_set d k v) = (map_of d)(k \<mapsto> v)"
  by (induction d) (auto simp: fun_eq_iff)

lemma dict_item_set_same: "dict_item (dict_set d k v) k = v"
  by (simp add: dict_item_def dict_set_map_of)

lemma dict_item_set_other: "x \<noteq> k \<Longrightarrow> dict_item (dict_set d k v) x = dict_item d x"
  by (simp add: dict_item_def dict_set_map_of)

lemma dict_set_has: "dict_has d k \<Longrightarrow> map fst (dict_set d k v) = map fst d"
  by (simp add: dict_set_keys dict_has_def)

lemma map_of_shift:
  "map_of (map (\<lambda>p. (fst p, snd p - m)) d) k = map_option (\<lambda>v. v - (m::int)) (map_of d k)"
  by (induction d) auto

lemma dict_item_shift:
  assumes "k \<in> set (map fst d)"
  shows "dict_item (map (\<lambda>p. (fst p, snd p - m)) d) k = dict_item d k - (m::int)"
proof -
  from assms obtain v where "map_of d k = Some v"
    by (metis list.set_map map_of_eq_None_iff not_Some_eq)
  then show ?thesis by (simp add: dict_item_def map_of_shift)
qed

lemma sort_key_first_le:
  fixes f :: "'a \<Rightarrow> int \<times> int"
  assumes "x \<in> set xs"
  shows "f (sort_key f xs ! 0) \<le> f x"
proof -
  have s: "sorted (map f (sort_key f xs))" by (rule sorted_sort_key)
  have "x \<in> set (sort_key f xs)" using assms by simp
  then obtain i where i: "i < length (sort_key f xs)" "sort_key f xs ! i = x"
    unfolding in_set_conv_nth by blast
  then have "map f (sort_key f xs) ! 0 \<le> map f (sort_key f xs) ! i"
    using s by (intro sorted_nth_mono) auto
  moreover have "xs \<noteq> []" using assms by auto
  ultimately show ?thesis using i by simp
qed

subsection \<open>Normalisation\<close>

lemma normalize_tu_keys: "map fst (time_units (normalize_tu st)) = map fst (time_units st)"
  by (simp add: normalize_tu_def Let_def comp_def)

lemma normalize_tu_diff:
  assumes "a \<in> set (map fst (time_units st))" "b \<in> set (map fst (time_units st))"
  shows "dict_item (time_units (normalize_tu st)) a - dict_item (time_units (normalize_tu st)) b
         = dict_item (time_units st) a - dict_item (time_units st) b"
  using assms by (simp add: normalize_tu_def Let_def dict_item_shift)

lemma normalize_tu_other [simp]:
  "turn_mode (normalize_tu st) = turn_mode st"
  "god_mode (normalize_tu st) = god_mode st"
  "player_name (normalize_tu st) = player_name st"
  "last_turn_time (normalize_tu st) = last_turn_time st"
  "new_memories_count (normalize_tu st) = new_memories_count st"
  "turn_history (normalize_tu st) = turn_history st"
  by (simp_all add: normalize_tu_def Let_def)

lemma god_player_registered_cong:
  assumes "map fst (time_units st') = map fst (time_units st)"
      and "god_mode st' = god_mode st" and "player_name st' = player_name st"
  shows "god_player_registered st' = god_player_registered st"
  unfolding god_player_registered_def dict_has_def assms ..

subsection \<open>The privileged actor and \<^verbatim>\<open>get_next_character\<close>\<close>

text \<open>
  Both turn-order functions pin a registered god-mode player first, and so does the
  memories branch of \<^verbatim>\<open>get_next_character\<close>.
\<close>

lemma get_turn_order_god_first:
  assumes "god_player_registered st"
  shows "get_turn_order st ! 0 = the (player_name st)"
  using assms
  by (simp add: get_turn_order_def get_turn_order_by_tu_def get_turn_order_by_memories_def)

lemma get_next_character_memories_god:
  assumes "god_player_registered st" and "turn_mode st = ''memories''"
  shows "get_next_character st = Some (the (player_name st))"
proof -
  from assms(1) have "time_units st \<noteq> []"
    by (auto simp: god_player_registered_def dict_has_def split: option.splits)
  with assms show ?thesis
    by (simp add: get_next_character_def get_next_character_by_memories_def)
qed

text \<open>
  C2. With god mode on and the player registered, \<^verbatim>\<open>get_turn_order\<close> puts the player
  first in both modes, but in time-units mode \<^verbatim>\<open>_get_next_character_by_tu\<close> has no god-mode
  branch: in the state reached when the player acts once at cost 2 and god mode is then
  switched on, the turn order starts with the player while \<^verbatim>\<open>get_next_character\<close> returns
  the agent.
\<close>

theorem get_next_character_by_tu_ignores_god_mode:
  "god_player_registered ex_god_late
   \<and> player_name ex_god_late = Some ''Player''
   \<and> turn_mode ex_god_late = ''time_units''
   \<and> time_units ex_god_late = [(''Player'', 1), (''Agent'', 0)]
   \<and> get_turn_order ex_god_late = [''Player'', ''Agent'']
   \<and> get_next_character ex_god_late = Some ''Agent''"
  by code_simp

subsection \<open>Acting while first in order\<close>

text \<open>
  C3, as stated, fails for the player: its cost is capped from above, not raised. From
  the table Player 0, Agent 4 the player is first, acts at raw cost 1, and is still first,
  with a counter below the agent's.
\<close>

theorem player_action_keeps_lead:
  "turn_mode ex_agent_acted = ''time_units''
   \<and> \<not> god_mode ex_agent_acted
   \<and> get_turn_order ex_agent_acted = [''Player'', ''Agent'']
   \<and> time_units ex_agent_acted = [(''Player'', 0), (''Agent'', 4)]
   \<and> time_units (add_time_units ex_agent_acted ''Player'' 1) = [(''Player'', 0), (''Agent'', 3)]
   \<and> get_turn_order (add_time_units ex_agent_acted ''Player'' 1) = [''Player'', ''Agent'']"
  by code_simp

text \<open>
  C3, amended. In time-units mode an actor other than the player that is first in the turn
  order, with another actor \<open>n\<close> second, ends \<^verbatim>\<open>add_time_units\<close> with a counter strictly
  above that of \<open>n\<close>, whatever the raw cost, and is not first in the new turn order.
\<close>

theorem add_time_units_agent_falls_behind:
  assumes ok: "dict_ok (time_units st)"
      and mode: "turn_mode st = ''time_units''"
      and np: "Some c \<noteq> player_name st"
      and ord: "get_turn_order st = c # n # rest"
  shows "dict_item (time_units (add_time_units st c raw)) n
           < dict_item (time_units (add_time_units st c raw)) c
         \<and> get_turn_order (add_time_units st c raw) ! 0 \<noteq> c"
proof -
  have ngp: "\<not> god_player_registered st"
  proof
    assume g: "god_player_registered st"
    then obtain p where p: "player_name st = Some p"
      by (auto simp: god_player_registered_def split: option.splits)
    with g ord mode have "c = p"
      by (simp add: get_turn_order_def get_turn_order_by_tu_def)
    with p np show False by simp
  qed
  let ?ks = "map fst (time_units st)"
  have srt: "sort_key (tu_key st) ?ks = c # n # rest"
    using ord mode ngp
    by (simp add: get_turn_order_def get_turn_order_by_tu_def py_sorted_def dict_keys_def)
  have "set (sort_key (tu_key st) ?ks) = set ?ks" by simp
  then have cin: "c \<in> set ?ks" and nin: "n \<in> set ?ks" using srt by auto
  have "distinct (sort_key (tu_key st) ?ks)" using ok by (simp add: dict_ok_def)
  then have cn: "c \<noteq> n" using srt by auto
  have has: "dict_has (time_units st) c" using cin by (simp add: dict_has_def)
  define cost where "cost = adjusted_cost st c raw"
  have cost: "cost = max raw (dict_item (time_units st) n - dict_item (time_units st) c + 1)"
    using np ord by (simp add: cost_def adjusted_cost_def Let_def)
  define mid where "mid = dict_set (time_units st) c (dict_item (time_units st) c + cost)"
  define st4 where "st4 = st\<lparr>time_units := mid, turn_history := turn_history st @ [c],
      last_turn_time := dict_set (last_turn_time st) c (int (length (turn_history st @ [c]))),
      new_memories_count := dict_set (new_memories_count st) c 0\<rparr>"
  have res: "add_time_units st c raw = normalize_tu st4"
    using has np by (simp add: add_time_units_def Let_def st4_def mid_def cost_def)
  have keys4: "map fst (time_units st4) = ?ks"
    using has by (simp add: st4_def mid_def dict_set_has)
  have tu4: "time_units st4 = mid" by (simp add: st4_def)
  have midc: "dict_item mid c = dict_item (time_units st) c + cost"
    by (simp add: mid_def dict_item_set_same)
  have midn: "dict_item mid n = dict_item (time_units st) n"
    using cn by (simp add: mid_def dict_item_set_other)
  have "dict_item (time_units (normalize_tu st4)) c - dict_item (time_units (normalize_tu st4)) n
        = dict_item mid c - dict_item mid n"
  proof -
    have c4: "c \<in> set (map fst (time_units st4))" unfolding keys4 by (rule cin)
    have n4: "n \<in> set (map fst (time_units st4))" unfolding keys4 by (rule nin)
    show ?thesis using normalize_tu_diff[OF c4 n4] unfolding tu4 .
  qed
  also have "\<dots> > 0" using midc midn cost by simp
  finally have lt: "dict_item (time_units (add_time_units st c raw)) n
                  < dict_item (time_units (add_time_units st c raw)) c"
    using res by simp
  let ?st' = "add_time_units st c raw"
  have keys': "map fst (time_units ?st') = ?ks"
    using res keys4 by (simp add: normalize_tu_keys)
  have gm: "god_mode ?st' = god_mode st" "player_name ?st' = player_name st"
    "turn_mode ?st' = turn_mode st"
    using res by (simp_all add: st4_def)
  have ngp': "\<not> god_player_registered ?st'"
    using ngp god_player_registered_cong[OF keys' gm(1) gm(2)] by simp
  have ord': "get_turn_order ?st' = sort_key (tu_key ?st') ?ks"
    using ngp' gm mode keys'
    by (simp add: get_turn_order_def get_turn_order_by_tu_def py_sorted_def dict_keys_def)
  have "tu_key ?st' (sort_key (tu_key ?st') ?ks ! 0) \<le> tu_key ?st' n"
    using nin by (rule sort_key_first_le)
  moreover have "tu_key ?st' n < tu_key ?st' c"
    using lt by (simp add: tu_key_def less_prod_def)
  ultimately have "sort_key (tu_key ?st') ?ks ! 0 \<noteq> c" by auto
  with ord' lt show ?thesis by simp
qed

theorem add_time_units_agent_falls_behind_witness:
  "dict_ok (time_units ex_player_acted)
   \<and> turn_mode ex_player_acted = ''time_units''
   \<and> Some ''Agent'' \<noteq> player_name ex_player_acted
   \<and> get_turn_order ex_player_acted = ''Agent'' # ''Player'' # []
   \<and> dict_item (time_units (add_time_units ex_player_acted ''Agent'' 0)) ''Player''
       < dict_item (time_units (add_time_units ex_player_acted ''Agent'' 0)) ''Agent''
   \<and> get_turn_order (add_time_units ex_player_acted ''Agent'' 0) ! 0 \<noteq> ''Agent''"
proof -
  have h1: "dict_ok (time_units ex_player_acted)" by code_simp
  have h2: "turn_mode ex_player_acted = ''time_units''" by code_simp
  have h3: "Some ''Agent'' \<noteq> player_name ex_player_acted" by code_simp
  have h4: "get_turn_order ex_player_acted = ''Agent'' # ''Player'' # []" by code_simp
  show ?thesis
    using h1 h2 h3 h4 add_time_units_agent_falls_behind [OF h1 h2 h3 h4, of 0] by blast
qed

subsection \<open>Passing\<close>

text \<open>
  C4. In memories mode \<^verbatim>\<open>pass_turn\<close> never looks at the turn order. The agent (two new
  memories) is first and the player (one) second; the player passes all the same:
  \<^verbatim>\<open>pass_turn\<close> returns \<^verbatim>\<open>True\<close> and the player's memory counter drops from 1 to 0.
\<close>

theorem pass_turn_memories_out_of_turn:
  "turn_mode ex_memories = ''memories''
   \<and> \<not> god_mode ex_memories
   \<and> get_turn_order ex_memories = [''Agent'', ''Player'']
   \<and> get_next_character ex_memories = Some ''Agent''
   \<and> fst (pass_turn ex_memories ''Player'') = True
   \<and> dict_item (new_memories_count ex_memories) ''Player'' = 1
   \<and> dict_item (new_memories_count (snd (pass_turn ex_memories ''Player''))) ''Player'' = 0"
  by code_simp

subsection \<open>Costs in memories mode\<close>




section \<open>Properties of the event dispatcher\<close>









subsection \<open>Error events\<close>

lemma dispatch_loop_observers:
  "\<forall>c \<in> set (dispatch_loop d event_type ed xs). \<exists>x \<in> set xs. call_observer c = Some x"
  by (induction xs) (auto simp: Let_def call_observer_def split: option.splits)

text \<open>
  C6, as stated, fails twice. The dispatcher recognises an error by its description (the
  warning sign or \<^verbatim>\<open>Failed:\<close>), not by its type: an event of type \<^verbatim>\<open>error\<close> whose
  description has no marker goes to everyone in the actor's location, here to Alice as well
  as to Bob. And \<^verbatim>\<open>EventBus.publish\<close> has no rule for errors at all: a marked error
  description published for Bob reaches Alice's callback (1).
\<close>

theorem error_delivery_counterexample:
  "\<not> is_error ex_error_unmarked
   \<and> map (\<lambda>c. (call_target c, call_observer c, call_text c))
        (dispatch_event ex_dispatcher ''error'' ex_error_unmarked)
      = [(1, Some ''Alice'', ''Bob tripped''), (2, Some ''Bob'', ''Bob tripped'')]
   \<and> is_error ex_error_marked
   \<and> map (\<lambda>c. (call_target c, call_observer c))
        (snd (bus_publish ex_digest 0 ex_bus ''error'' (get_or (ed_description ex_error_marked) '''')
                ex_error_marked))
      = [(1, Some ''Alice''), (2, Some ''Bob'')]"
  by code_simp

text \<open>
  C6, amended, for \<^verbatim>\<open>EventDispatcher.dispatch_event\<close>. When the description of an event, of
  whatever type, contains the warning sign or \<^verbatim>\<open>Failed:\<close>, the recipient list is the actor
  alone if the actor is registered and empty otherwise, and every callback call made is
  for the actor.
\<close>

theorem dispatch_event_error_only_actor:
  assumes "is_error ed"
  shows "observers_to_notify d event_type ed
           = (if dict_has (observers d) (get_or (ed_actor ed) ''unknown'')
              then [get_or (ed_actor ed) ''unknown''] else [])
         \<and> (\<forall>c \<in> set (dispatch_event d event_type ed).
               call_observer c = Some (get_or (ed_actor ed) ''unknown''))"
proof -
  have a: "observers_to_notify d event_type ed
           = (if dict_has (observers d) (get_or (ed_actor ed) ''unknown'')
              then [get_or (ed_actor ed) ''unknown''] else [])"
    using assms by (simp add: observers_to_notify_def Let_def)
  have "\<forall>c \<in> set (dispatch_event d event_type ed).
          \<exists>x \<in> set (observers_to_notify d event_type ed). call_observer c = Some x"
    unfolding dispatch_event_def by (rule dispatch_loop_observers)
  then have b: "\<forall>c \<in> set (dispatch_event d event_type ed).
               call_observer c = Some (get_or (ed_actor ed) ''unknown'')"
    unfolding a by (auto split: if_splits)
  from a b show ?thesis by blast
qed

theorem dispatch_event_error_only_actor_witness:
  "is_error ex_error_marked
   \<and> observers_to_notify ex_dispatcher ''command'' ex_error_marked = [''Bob'']
   \<and> dispatch_event ex_dispatcher ''command'' ex_error_marked \<noteq> []
   \<and> list_all (\<lambda>c. call_observer c = Some ''Bob'')
         (dispatch_event ex_dispatcher ''command'' ex_error_marked)"
proof -
  have h: "is_error ex_error_marked" by code_simp
  have a: "get_or (ed_actor ex_error_marked) ''unknown'' = ''Bob''" by code_simp
  have r: "dict_has (observers ex_dispatcher) ''Bob''" by code_simp
  have n: "dispatch_event ex_dispatcher ''command'' ex_error_marked \<noteq> []" by code_simp
  from dispatch_event_error_only_actor [OF h, of ex_dispatcher "''command''"] h n r
  show ?thesis by (simp add: a list_all_iff)
qed

subsection \<open>The registry\<close>

lemma dict_set_twice: "dict_set (dict_set d k v1) k v2 = dict_set d k v2"
  by (induction d) auto

lemma dict_ok_dict_set: "dict_ok d \<Longrightarrow> dict_ok (dict_set d k v)"
  by (auto simp: dict_ok_def dict_set_keys)

lemma dispatch_loop_count:
  assumes "distinct xs"
  shows "length (filter (\<lambda>c. call_observer c = Some r) (dispatch_loop d event_type ed xs)) \<le> 1"
  using assms
proof (induction xs)
  case Nil
  show ?case by simp
next
  case (Cons x xs)
  then have ih: "length (filter (\<lambda>c. call_observer c = Some r) (dispatch_loop d event_type ed xs)) \<le> 1"
    by simp
  show ?case
  proof (cases "x = r")
    case True
    with Cons.prems have "r \<notin> set xs" by simp
    then have "filter (\<lambda>c. call_observer c = Some r) (dispatch_loop d event_type ed xs) = []"
      using dispatch_loop_observers[of d event_type ed xs] by (auto simp: filter_empty_conv)
    then show ?thesis by (simp add: Let_def split: option.splits)
  next
    case False
    with ih show ?thesis by (simp add: Let_def call_observer_def split: option.splits)
  qed
qed

lemma observers_to_notify_distinct:
  assumes "dict_ok (observers d)"
  shows "distinct (observers_to_notify d event_type ed)"
  using assms by (simp add: observers_to_notify_def Let_def dict_ok_def dict_keys_def)

text \<open>
  C8, as stated, fails for \<^verbatim>\<open>EventBus.register\<close>, which keeps a list of callbacks per
  character and appends: after registering callback 1 and then callback 2 for Alice the
  registry holds both, it differs from the registry that holds callback 2 alone, and one
  published event calls both.
\<close>

theorem bus_register_accumulates:
  "bus_observers (bus_register (bus_register init_event_bus ''Alice'' (1::nat)) ''Alice'' 2)
     = [(''Alice'', [1, 2])]
   \<and> bus_observers (bus_register init_event_bus ''Alice'' (2::nat)) = [(''Alice'', [2])]
   \<and> map (\<lambda>c. (call_target c, call_observer c))
        (snd (bus_publish ex_digest 0
                (bus_register (bus_register init_event_bus ''Alice'' (1::nat)) ''Alice'' 2)
                ''speech'' ''Bob says: hello'' ex_speech))
      = [(1, Some ''Alice''), (2, Some ''Alice'')]"
  by code_simp

text \<open>
  C8, amended, for \<^verbatim>\<open>EventDispatcher.register\<close>. Registering \<open>c1\<close> and then \<open>c2\<close> for the
  same name gives the registry that registering \<open>c2\<close> alone gives; the name is then bound
  to \<open>c2\<close>; registration keeps the keys distinct; and with distinct keys one dispatched
  event makes at most one call per recipient.
\<close>

theorem dispatcher_register_replaces:
  "dispatcher_register (dispatcher_register d a c1) a c2 = dispatcher_register d a c2
   \<and> map_of (observers (dispatcher_register d a c2)) a = Some c2
   \<and> (dict_ok (observers d) \<longrightarrow>
        dict_ok (observers (dispatcher_register d a c2))
        \<and> length (filter (\<lambda>c. call_observer c = Some r)
                    (dispatch_event (dispatcher_register d a c2) event_type ed)) \<le> 1)"
proof -
  have a: "dispatcher_register (dispatcher_register d a c1) a c2 = dispatcher_register d a c2"
    by (simp add: dispatcher_register_def dict_set_twice)
  have b: "map_of (observers (dispatcher_register d a c2)) a = Some c2"
    by (simp add: dispatcher_register_def dict_set_map_of)
  have c: "dict_ok (observers (dispatcher_register d a c2))" if "dict_ok (observers d)"
    using that by (simp add: dispatcher_register_def dict_ok_dict_set)
  have e: "length (filter (\<lambda>c. call_observer c = Some r)
                    (dispatch_event (dispatcher_register d a c2) event_type ed)) \<le> 1"
    if "dict_ok (observers d)"
    unfolding dispatch_event_def
    by (rule dispatch_loop_count, rule observers_to_notify_distinct, rule c, rule that)
  from a b c e show ?thesis by blast
qed

theorem dispatcher_register_replaces_witness:
  "dict_ok (observers ex_dispatcher)
   \<and> dispatcher_register (dispatcher_register ex_dispatcher ''Alice'' 7) ''Alice'' 8
       = dispatcher_register ex_dispatcher ''Alice'' 8
   \<and> map_of (observers (dispatcher_register ex_dispatcher ''Alice'' 8)) ''Alice'' = Some 8
   \<and> dict_ok (observers (dispatcher_register ex_dispatcher ''Alice'' 8))
   \<and> length (filter (\<lambda>c. call_observer c = Some ''Alice'')
               (dispatch_event (dispatcher_register ex_dispatcher ''Alice'' 8) ''speech'' ex_speech))
       \<le> 1"
proof -
  have h: "dict_ok (observers ex_dispatcher)" by code_simp
  from dispatcher_register_replaces [of ex_dispatcher "''Alice''" 7 8 "''Alice''" "''speech''" ex_speech] h
  show ?thesis by blast
qed

subsection \<open>No deduplication in the dispatcher\<close>

text \<open>
  C7, as stated, fails for \<^verbatim>\<open>EventDispatcher.dispatch_event\<close>, the path that
  \<^verbatim>\<open>World.notify_location\<close> uses: it keeps no record of what it has dispatched, so the same
  event dispatched twice calls Alice's callback twice.
\<close>

theorem dispatch_event_twice_delivers_twice:
  "map (\<lambda>c. (call_target c, call_observer c, call_text c))
     (dispatch_event ex_dispatcher ''speech'' ex_speech
      @ dispatch_event ex_dispatcher ''speech'' ex_speech)
   = [(1, Some ''Alice'', ''Bob says: '' @ [CHR 0x22] @ ''hello'' @ [CHR 0x22]),
      (1, Some ''Alice'', ''Bob says: '' @ [CHR 0x22] @ ''hello'' @ [CHR 0x22])]"
  by code_simp

section \<open>Properties of the event bus\<close>

subsection \<open>What the notification loop leaves alone\<close>

lemma observer_has_seen_event_frame:
  "bus_observers (fst (observer_has_seen_event now bus observer fp)) = bus_observers bus"
  "recent_events (fst (observer_has_seen_event now bus observer fp)) = recent_events bus"
  "event_expiry (fst (observer_has_seen_event now bus observer fp)) = event_expiry bus"
  by (simp_all add: observer_has_seen_event_def Let_def)

lemma record_observer_event_frame:
  "bus_observers (record_observer_event now bus observer fp) = bus_observers bus"
  "recent_events (record_observer_event now bus observer fp) = recent_events bus"
  "event_expiry (record_observer_event now bus observer fp) = event_expiry bus"
  by (simp_all add: record_observer_event_def Let_def)

lemma bus_notify_loop_step:
  "bus_notify_loop now fp et desc ed bus (x # xs) =
     (if snd (observer_has_seen_event now bus x fp)
      then bus_notify_loop now fp et desc ed (fst (observer_has_seen_event now bus x fp)) xs
      else (fst (bus_notify_loop now fp et desc ed
                   (record_observer_event now (fst (observer_has_seen_event now bus x fp)) x fp) xs),
            bus_calls_for (record_observer_event now (fst (observer_has_seen_event now bus x fp)) x fp)
              et desc ed x
            @ snd (bus_notify_loop now fp et desc ed
                     (record_observer_event now (fst (observer_has_seen_event now bus x fp)) x fp) xs)))"
  by (simp add: case_prod_beta Let_def)

lemma bus_notify_loop_frame:
  "bus_observers (fst (bus_notify_loop now fp et desc ed bus xs)) = bus_observers bus
   \<and> recent_events (fst (bus_notify_loop now fp et desc ed bus xs)) = recent_events bus
   \<and> event_expiry (fst (bus_notify_loop now fp et desc ed bus xs)) = event_expiry bus"
proof (induction xs arbitrary: bus)
  case Nil
  show ?case by simp
next
  case (Cons x xs)
  show ?case
    unfolding bus_notify_loop_step
    by (simp add: Cons.IH observer_has_seen_event_frame record_observer_event_frame)
qed

lemma bus_calls_for_cong:
  "bus_observers b' = bus_observers b \<Longrightarrow> bus_calls_for b' et desc ed obs = bus_calls_for b et desc ed obs"
  by (simp add: bus_calls_for_def)

lemma bus_publish_frame:
  "bus_observers (fst (bus_publish md5 now bus et desc ed)) = bus_observers bus
   \<and> event_expiry (fst (bus_publish md5 now bus et desc ed)) = event_expiry bus"
  by (simp add: bus_publish_def Let_def bus_notify_loop_frame cleanup_old_events_def)

subsection \<open>A second publication inside the window\<close>

lemma map_of_filter_keep:
  "map_of xs k = Some v \<Longrightarrow> P (k, v) \<Longrightarrow> map_of (filter P xs) k = Some v"
  by (induction xs) (auto split: if_splits)

lemma bus_publish_records:
  assumes "\<not> is_recent_duplicate now bus (publish_fingerprint md5 now et desc ed)"
      and "0 < event_expiry bus"
  shows "map_of (recent_events (fst (bus_publish md5 now bus et desc ed)))
           (publish_fingerprint md5 now et desc ed) = Some now"
proof -
  let ?fp = "publish_fingerprint md5 now et desc ed"
  have "map_of (dict_set (recent_events bus) ?fp now) ?fp = Some now"
    by (simp add: dict_set_map_of)
  then have "map_of (filter (\<lambda>e. \<not> event_expiry bus * 1000000 \<le> now - snd e)
                      (dict_set (recent_events bus) ?fp now)) ?fp = Some now"
    using assms(2) by (intro map_of_filter_keep) auto
  then show ?thesis
    using assms(1) by (simp add: bus_publish_def Let_def bus_notify_loop_frame cleanup_old_events_def)
qed

lemma bus_publish_second_dropped:
  assumes same: "publish_fingerprint md5 t2 et2 desc2 ed2 = publish_fingerprint md5 t1 et1 desc1 ed1"
      and le: "t1 \<le> t2" and win: "t2 - t1 < event_expiry bus * 1000000"
      and fresh: "\<not> is_recent_duplicate t1 bus (publish_fingerprint md5 t1 et1 desc1 ed1)"
  shows "bus_publish md5 t2 (fst (bus_publish md5 t1 bus et1 desc1 ed1)) et2 desc2 ed2
           = (fst (bus_publish md5 t1 bus et1 desc1 ed1), [])"
proof -
  let ?b1 = "fst (bus_publish md5 t1 bus et1 desc1 ed1)"
  have pos: "0 < event_expiry bus" using le win by (simp add: zero_less_mult_iff) 
  have rec: "map_of (recent_events ?b1) (publish_fingerprint md5 t1 et1 desc1 ed1) = Some t1"
    using bus_publish_records[OF fresh pos] .
  have ex: "event_expiry ?b1 = event_expiry bus" using bus_publish_frame by blast
  have "is_recent_duplicate t2 ?b1 (publish_fingerprint md5 t2 et2 desc2 ed2)"
    using rec win by (simp add: is_recent_duplicate_def same ex)
  then show ?thesis by (simp add: bus_publish_def Let_def)
qed

subsection \<open>One call per recipient and callback\<close>

lemma bus_calls_for_observer:
  "c \<in> set (bus_calls_for bus et desc ed x) \<Longrightarrow> call_observer c = Some x"
  by (auto simp: bus_calls_for_def call_observer_def prepare_data_for_observer_def)

lemma bus_notify_loop_observers:
  "c \<in> set (snd (bus_notify_loop now fp et desc ed bus xs))
     \<Longrightarrow> \<exists>x \<in> set xs. call_observer c = Some x"
proof (induction xs arbitrary: bus)
  case Nil
  then show ?case by simp
next
  case (Cons x xs)
  from Cons.prems show ?case
    unfolding bus_notify_loop_step
    by (auto dest: bus_calls_for_observer Cons.IH split: if_splits)
qed

lemma bus_calls_for_count:
  assumes "distinct (dict_item (bus_observers bus) x)"
  shows "length (filter (\<lambda>c. call_observer c = Some r \<and> call_target c = cb)
                   (bus_calls_for bus et desc ed x)) \<le> 1"
proof -
  let ?cbs = "dict_item (bus_observers bus) x"
  have "length (filter (\<lambda>c. call_observer c = Some r \<and> call_target c = cb)
                   (bus_calls_for bus et desc ed x))
        = length (filter (\<lambda>callback. x = r \<and> callback = cb) ?cbs)"
    by (simp add: bus_calls_for_def filter_map comp_def call_observer_def
                  prepare_data_for_observer_def)
  also have "\<dots> \<le> length (filter (\<lambda>callback. callback = cb) ?cbs)"
    by (cases "x = r") simp_all
  also have "\<dots> = card ({y. y = cb} \<inter> set ?cbs)"
    using assms by (rule distinct_length_filter)
  also have "\<dots> \<le> card {cb}"
    by (intro card_mono) auto
  finally show ?thesis by simp
qed

lemma bus_notify_loop_count:
  assumes "distinct xs" and "\<forall>x \<in> set xs. distinct (dict_item (bus_observers bus) x)"
  shows "length (filter (\<lambda>c. call_observer c = Some r \<and> call_target c = cb)
                   (snd (bus_notify_loop now fp et desc ed bus xs))) \<le> 1"
  using assms
proof (induction xs arbitrary: bus)
  case Nil
  show ?case by simp
next
  case (Cons x xs)
  let ?Q = "\<lambda>c. call_observer c = Some r \<and> call_target c = cb"
  let ?b1 = "fst (observer_has_seen_event now bus x fp)"
  let ?b2 = "record_observer_event now ?b1 x fp"
  have o1: "bus_observers ?b1 = bus_observers bus"
    by (simp add: observer_has_seen_event_frame)
  have o2: "bus_observers ?b2 = bus_observers bus"
    by (simp add: observer_has_seen_event_frame record_observer_event_frame)
  have d: "distinct xs" using Cons.prems(1) by simp
  have ih1: "length (filter ?Q (snd (bus_notify_loop now fp et desc ed ?b1 xs))) \<le> 1"
    using Cons.IH[OF d, of ?b1] Cons.prems(2) o1 by simp
  have ih2: "length (filter ?Q (snd (bus_notify_loop now fp et desc ed ?b2 xs))) \<le> 1"
    using Cons.IH[OF d, of ?b2] Cons.prems(2) o2 by simp
  have here: "length (filter ?Q (bus_calls_for ?b2 et desc ed x)) \<le> 1"
    using bus_calls_for_count[of ?b2 x r cb et desc ed] Cons.prems(2) o2 by simp
  have split: "filter ?Q (bus_calls_for ?b2 et desc ed x) = []
               \<or> filter ?Q (snd (bus_notify_loop now fp et desc ed ?b2 xs)) = []"
  proof (cases "x = r")
    case True
    then have "r \<notin> set xs" using Cons.prems(1) by simp
    then have "filter ?Q (snd (bus_notify_loop now fp et desc ed ?b2 xs)) = []"
      by (auto simp: filter_empty_conv dest: bus_notify_loop_observers)
    then show ?thesis ..
  next
    case False
    then have "filter ?Q (bus_calls_for ?b2 et desc ed x) = []"
      by (auto simp: filter_empty_conv dest: bus_calls_for_observer)
    then show ?thesis ..
  qed
  show ?case
    unfolding bus_notify_loop_step
    using ih1 ih2 here split by auto
qed

lemma bus_observers_to_notify_keys:
  "set (bus_observers_to_notify bus et ed) \<subseteq> set (map fst (bus_observers bus))"
  by (auto simp: bus_observers_to_notify_def Let_def dict_keys_def)

lemma bus_observers_to_notify_distinct:
  "dict_ok (bus_observers bus) \<Longrightarrow> distinct (bus_observers_to_notify bus et ed)"
  by (simp add: bus_observers_to_notify_def Let_def dict_ok_def dict_keys_def)

lemma bus_observers_to_notify_cong:
  assumes "bus_observers b' = bus_observers b"
  shows "bus_observers_to_notify b' et ed = bus_observers_to_notify b et ed"
  unfolding bus_observers_to_notify_def assms ..

lemma dict_item_in_values:
  assumes "k \<in> set (map fst d)"
  shows "(k, dict_item d k) \<in> set d"
proof -
  from assms obtain v where v: "map_of d k = Some v"
    by (metis list.set_map map_of_eq_None_iff not_Some_eq)
  then have "(k, v) \<in> set d" by (rule map_of_SomeD)
  with v show ?thesis by (simp add: dict_item_def)
qed

lemma bus_ok_callbacks_distinct:
  assumes "bus_ok bus" and "x \<in> set (map fst (bus_observers bus))"
  shows "distinct (dict_item (bus_observers bus) x)"
proof -
  have "(x, dict_item (bus_observers bus) x) \<in> set (bus_observers bus)"
    using assms(2) by (rule dict_item_in_values)
  moreover have "\<forall>p \<in> set (bus_observers bus). distinct (snd p)"
    using assms(1) by (simp add: bus_ok_def list_all_iff)
  ultimately show ?thesis by fastforce
qed

lemma bus_publish_count:
  assumes "bus_ok bus"
  shows "length (filter (\<lambda>c. call_observer c = Some r \<and> call_target c = cb)
                   (snd (bus_publish md5 now bus et desc ed))) \<le> 1"
proof (cases "is_recent_duplicate now bus (publish_fingerprint md5 now et desc ed)")
  case True
  then show ?thesis by (simp add: bus_publish_def Let_def)
next
  case False
  define b2 where "b2 = cleanup_old_events now
      (bus\<lparr>recent_events := dict_set (recent_events bus) (publish_fingerprint md5 now et desc ed) now\<rparr>)"
  have o: "bus_observers b2 = bus_observers bus" by (simp add: b2_def cleanup_old_events_def)
  have ok: "bus_ok b2" using assms by (simp add: bus_ok_def o)
  have d: "distinct (bus_observers_to_notify b2 et (publish_data et ed))"
    using ok by (simp add: bus_ok_def bus_observers_to_notify_distinct)
  have cbs: "\<forall>x \<in> set (bus_observers_to_notify b2 et (publish_data et ed)).
               distinct (dict_item (bus_observers b2) x)"
    using bus_ok_callbacks_distinct[OF ok] bus_observers_to_notify_keys[of b2] by blast
  have "snd (bus_publish md5 now bus et desc ed)
        = snd (bus_notify_loop now (publish_fingerprint md5 now et desc ed) et
                 (publish_description et desc) (publish_data et ed) b2
                 (bus_observers_to_notify b2 et (publish_data et ed)))"
    using False by (simp add: bus_publish_def Let_def b2_def)
  then show ?thesis using bus_notify_loop_count[OF d cbs] by simp
qed

subsection \<open>A publication after the window\<close>

lemma dict_get_dict_set:
  "dict_get (dict_set d k v) y dflt = (if y = k then v else dict_get d y dflt)"
  by (simp add: dict_get_def dict_set_map_of)

lemma dict_get_touch: "dict_get (defaultdict_touch d k) y [] = dict_get d y []"
proof (cases "dict_has d k")
  case True
  then show ?thesis by (simp add: defaultdict_touch_def)
next
  case False
  then have "map_of d k = None"
    by (simp add: dict_has_def map_of_eq_None_iff)
  then show ?thesis using False
    by (simp add: defaultdict_touch_def dict_get_dict_set) (simp add: dict_get_def)
qed

lemma dict_item_touch: "dict_item (defaultdict_touch d k) k = dict_get d k []"
proof (cases "dict_has d k")
  case True
  then obtain v where "map_of d k = Some v"
    unfolding dict_has_def by (metis list.set_map map_of_eq_None_iff not_Some_eq)
  then show ?thesis using True by (simp add: defaultdict_touch_def dict_item_def dict_get_def)
next
  case False
  then have "map_of d k = None"
    by (simp add: dict_has_def map_of_eq_None_iff)
  then show ?thesis using False
    by (simp add: defaultdict_touch_def dict_item_set_same dict_get_def)
qed

text \<open>What an observer's list of seen events holds after the two steps of one iteration.\<close>

lemma seen_after_check:
  "dict_get (observer_recent_events (fst (observer_has_seen_event now bus x fp))) y []
     = (if y = x
        then filter (\<lambda>e. now - snd e < event_expiry bus * 1000000)
               (dict_get (observer_recent_events bus) x [])
        else dict_get (observer_recent_events bus) y [])"
  by (simp add: observer_has_seen_event_def Let_def dict_get_dict_set dict_get_touch
                dict_item_touch)

lemma seen_after_record:
  "dict_get (observer_recent_events (record_observer_event now bus x fp)) y []
     = (if y = x then dict_get (observer_recent_events bus) x [] @ [(fp, now)]
        else dict_get (observer_recent_events bus) y [])"
  by (simp add: record_observer_event_def Let_def dict_get_dict_set dict_get_touch
                dict_item_touch)

lemma has_seen_result:
  "snd (observer_has_seen_event now bus x fp)
     = list_ex (\<lambda>e. fst e = fp)
         (filter (\<lambda>e. now - snd e < event_expiry bus * 1000000)
            (dict_get (observer_recent_events bus) x []))"
  by (simp add: observer_has_seen_event_def Let_def dict_item_touch)

lemma bus_notify_loop_full:
  assumes "distinct xs"
      and "\<forall>x \<in> set xs. filter (\<lambda>e. now - snd e < event_expiry bus * 1000000)
                            (dict_get (observer_recent_events bus) x []) = []"
  shows "snd (bus_notify_loop now fp et desc ed bus xs)
           = concat (map (bus_calls_for bus et desc ed) xs)"
  using assms
proof (induction xs arbitrary: bus)
  case Nil
  show ?case by simp
next
  case (Cons x xs)
  let ?b1 = "fst (observer_has_seen_event now bus x fp)"
  let ?b2 = "record_observer_event now ?b1 x fp"
  have notseen: "\<not> snd (observer_has_seen_event now bus x fp)"
    using Cons.prems(2) by (simp add: has_seen_result)
  have o2: "bus_observers ?b2 = bus_observers bus"
    by (simp add: observer_has_seen_event_frame record_observer_event_frame)
  have e2: "event_expiry ?b2 = event_expiry bus"
    by (simp add: observer_has_seen_event_frame record_observer_event_frame)
  have d: "distinct xs" and nx: "x \<notin> set xs" using Cons.prems(1) by simp_all
  have rest: "\<forall>y \<in> set xs. filter (\<lambda>e. now - snd e < event_expiry ?b2 * 1000000)
                            (dict_get (observer_recent_events ?b2) y []) = []"
  proof
    fix y assume y: "y \<in> set xs"
    then have "y \<noteq> x" using nx by auto
    then have "dict_get (observer_recent_events ?b2) y [] = dict_get (observer_recent_events bus) y []"
      by (simp add: seen_after_record seen_after_check)
    then show "filter (\<lambda>e. now - snd e < event_expiry ?b2 * 1000000)
                 (dict_get (observer_recent_events ?b2) y []) = []"
      using Cons.prems(2) y e2 by simp
  qed
  have "snd (bus_notify_loop now fp et desc ed ?b2 xs)
          = concat (map (bus_calls_for ?b2 et desc ed) xs)"
    using Cons.IH[OF d rest] .
  also have "\<dots> = concat (map (bus_calls_for bus et desc ed) xs)"
    using bus_calls_for_cong[OF o2] by (intro arg_cong[where f = concat] map_cong) auto
  finally have tail: "snd (bus_notify_loop now fp et desc ed ?b2 xs)
          = concat (map (bus_calls_for bus et desc ed) xs)" .
  show ?case
    unfolding bus_notify_loop_step
    using notseen tail bus_calls_for_cong[OF o2, of et desc ed x] by simp
qed

text \<open>Timestamps recorded by a publication at \<open>t\<close> are not later than \<open>t\<close>.\<close>

lemma list_all_dict_set:
  "list_all P d \<Longrightarrow> P (k, v) \<Longrightarrow> list_all P (dict_set d k v)"
  by (induction d) auto

lemma stamps_dict_get:
  assumes "list_all (\<lambda>p. list_all Q (snd p)) d"
  shows "list_all Q (dict_get d x [])"
proof (cases "map_of d x")
  case None
  then show ?thesis by (simp add: dict_get_def)
next
  case (Some v)
  then have "(x, v) \<in> set d" by (rule map_of_SomeD)
  with assms have "list_all Q v" by (auto simp: list_all_iff)
  with Some show ?thesis by (simp add: dict_get_def)
qed

lemma list_all_touch:
  "list_all (\<lambda>p. list_all Q (snd p)) d
     \<Longrightarrow> list_all (\<lambda>p. list_all Q (snd p)) (defaultdict_touch d k)"
  by (simp add: defaultdict_touch_def list_all_dict_set)

lemma observer_has_seen_event_stamps:
  assumes "bus_stamps_le bus t"
  shows "bus_stamps_le (fst (observer_has_seen_event now bus x fp)) t"
proof -
  let ?Q = "\<lambda>e::string \<times> int. snd e \<le> t"
  have a: "list_all (\<lambda>p. list_all ?Q (snd p)) (observer_recent_events bus)"
    using assms by (simp add: bus_stamps_le_def)
  have "list_all ?Q (dict_get (observer_recent_events bus) x [])"
    using a by (rule stamps_dict_get)
  then have "list_all ?Q (filter (\<lambda>e. now - snd e < event_expiry bus * 1000000)
                            (dict_item (defaultdict_touch (observer_recent_events bus) x) x))"
    by (simp add: dict_item_touch list_all_iff)
  then have "list_all (\<lambda>p. list_all ?Q (snd p))
               (observer_recent_events (fst (observer_has_seen_event now bus x fp)))"
    using list_all_touch[OF a, of x]
    by (simp add: observer_has_seen_event_def Let_def list_all_dict_set)
  then show ?thesis using assms
    by (simp add: bus_stamps_le_def observer_has_seen_event_frame)
qed

lemma record_observer_event_stamps:
  assumes "bus_stamps_le bus t" and "now \<le> t"
  shows "bus_stamps_le (record_observer_event now bus x fp) t"
proof -
  let ?Q = "\<lambda>e::string \<times> int. snd e \<le> t"
  have a: "list_all (\<lambda>p. list_all ?Q (snd p)) (observer_recent_events bus)"
    using assms by (simp add: bus_stamps_le_def)
  have "list_all ?Q (dict_get (observer_recent_events bus) x [])"
    using a by (rule stamps_dict_get)
  then have "list_all ?Q (dict_item (defaultdict_touch (observer_recent_events bus) x) x
                          @ [(fp, now)])"
    using assms(2) by (simp add: dict_item_touch)
  then have "list_all (\<lambda>p. list_all ?Q (snd p))
               (observer_recent_events (record_observer_event now bus x fp))"
    using list_all_touch[OF a, of x]
    by (simp add: record_observer_event_def Let_def list_all_dict_set)
  then show ?thesis using assms
    by (simp add: bus_stamps_le_def record_observer_event_frame)
qed

lemma bus_notify_loop_stamps:
  assumes "bus_stamps_le bus t" and "now \<le> t"
  shows "bus_stamps_le (fst (bus_notify_loop now fp et desc ed bus xs)) t"
  using assms(1)
proof (induction xs arbitrary: bus)
  case Nil
  then show ?case by simp
next
  case (Cons x xs)
  show ?case
    unfolding bus_notify_loop_step
    using Cons.prems assms(2)
    by (simp add: Cons.IH observer_has_seen_event_stamps record_observer_event_stamps)
qed

lemma bus_publish_stamps:
  assumes "bus_stamps_le bus t"
  shows "bus_stamps_le (fst (bus_publish md5 t bus et desc ed)) t"
proof (cases "is_recent_duplicate t bus (publish_fingerprint md5 t et desc ed)")
  case True
  then show ?thesis using assms by (simp add: bus_publish_def Let_def)
next
  case False
  define b2 where "b2 = cleanup_old_events t
      (bus\<lparr>recent_events := dict_set (recent_events bus) (publish_fingerprint md5 t et desc ed) t\<rparr>)"
  have "list_all (\<lambda>e. snd e \<le> t)
          (dict_set (recent_events bus) (publish_fingerprint md5 t et desc ed) t)"
    using assms by (simp add: bus_stamps_le_def list_all_dict_set)
  then have "bus_stamps_le b2 t"
    using assms by (simp add: b2_def cleanup_old_events_def bus_stamps_le_def list_all_iff)
  then have "bus_stamps_le (fst (bus_notify_loop t (publish_fingerprint md5 t et desc ed) et
                 (publish_description et desc) (publish_data et ed) b2
                 (bus_observers_to_notify b2 et (publish_data et ed)))) t"
    by (rule bus_notify_loop_stamps) simp
  then show ?thesis using False by (simp add: bus_publish_def Let_def b2_def)
qed

lemma bus_publish_after_expiry:
  assumes st: "bus_stamps_le b t1" and ok: "dict_ok (bus_observers b)"
      and late: "event_expiry b * 1000000 \<le> t2 - t1"
  shows "snd (bus_publish md5 t2 b et desc ed)
           = concat (map (bus_calls_for b et (publish_description et desc) (publish_data et ed))
                       (bus_observers_to_notify b et (publish_data et ed)))"
proof -
  let ?fp = "publish_fingerprint md5 t2 et desc ed"
  have old: "\<And>ts. ts \<le> t1 \<Longrightarrow> \<not> t2 - ts < event_expiry b * 1000000"
    using late by simp
  have nodup: "\<not> is_recent_duplicate t2 b ?fp"
  proof (cases "map_of (recent_events b) ?fp")
    case None
    then show ?thesis by (simp add: is_recent_duplicate_def)
  next
    case (Some ts)
    then have "(?fp, ts) \<in> set (recent_events b)" by (rule map_of_SomeD)
    then have "ts \<le> t1" using st by (auto simp: bus_stamps_le_def list_all_iff)
    then show ?thesis using Some old by (simp add: is_recent_duplicate_def)
  qed
  define b2 where "b2 = cleanup_old_events t2 (b\<lparr>recent_events := dict_set (recent_events b) ?fp t2\<rparr>)"
  have o: "bus_observers b2 = bus_observers b" by (simp add: b2_def cleanup_old_events_def)
  have e: "event_expiry b2 = event_expiry b" by (simp add: b2_def cleanup_old_events_def)
  have s: "observer_recent_events b2 = observer_recent_events b"
    by (simp add: b2_def cleanup_old_events_def)
  have d: "distinct (bus_observers_to_notify b2 et (publish_data et ed))"
    using ok o by (simp add: bus_observers_to_notify_distinct)
  have none: "\<forall>x \<in> set (bus_observers_to_notify b2 et (publish_data et ed)).
               filter (\<lambda>e. t2 - snd e < event_expiry b2 * 1000000)
                 (dict_get (observer_recent_events b2) x []) = []"
  proof
    fix x
    have "list_all (\<lambda>e. snd e \<le> t1) (dict_get (observer_recent_events b) x [])"
      using st by (intro stamps_dict_get) (simp add: bus_stamps_le_def)
    then show "filter (\<lambda>e. t2 - snd e < event_expiry b2 * 1000000)
                 (dict_get (observer_recent_events b2) x []) = []"
      using old by (auto simp: s e filter_empty_conv list_all_iff)
  qed
  have "snd (bus_publish md5 t2 b et desc ed)
        = snd (bus_notify_loop t2 ?fp et (publish_description et desc) (publish_data et ed) b2
                 (bus_observers_to_notify b2 et (publish_data et ed)))"
    using nodup by (simp add: bus_publish_def Let_def b2_def)
  also have "\<dots> = concat (map (bus_calls_for b2 et (publish_description et desc) (publish_data et ed))
                       (bus_observers_to_notify b2 et (publish_data et ed)))"
    using bus_notify_loop_full[OF d none] .
  also have "\<dots> = concat (map (bus_calls_for b et (publish_description et desc) (publish_data et ed))
                       (bus_observers_to_notify b et (publish_data et ed)))"
    using bus_calls_for_cong[OF o] bus_observers_to_notify_cong[OF o]
    by (intro arg_cong[where f = concat]) (simp cong: map_cong)
  finally show ?thesis .
qed

subsection \<open>Deduplication\<close>

text \<open>
  C7, amended, for \<^verbatim>\<open>EventBus.publish\<close>. An event is published at \<open>t1\<close> and again at
  \<open>t2\<close>, on a bus whose registry is well formed and whose recorded timestamps are not in
  the future. If the two fingerprints are identical and \<open>t2\<close> is inside the expiry window,
  then over both publications together no callback of any recipient is called more than
  once, and, unless the first publication was itself suppressed as a duplicate, the second
  is dropped: it calls nothing and leaves the bus as it was. If instead the expiry window
  has elapsed, the second publication calls every callback of every recipient.
\<close>

theorem bus_publish_dedup:
  assumes ok: "bus_ok bus" and past: "bus_stamps_le bus t1" and le: "t1 \<le> t2"
  shows "(publish_fingerprint md5 t2 et desc ed = publish_fingerprint md5 t1 et desc ed
            \<and> t2 - t1 < event_expiry bus * 1000000
          \<longrightarrow> length (filter (\<lambda>c. call_observer c = Some r \<and> call_target c = cb)
                         (snd (bus_publish md5 t1 bus et desc ed)
                          @ snd (bus_publish md5 t2 (fst (bus_publish md5 t1 bus et desc ed))
                                   et desc ed))) \<le> 1
              \<and> (\<not> is_recent_duplicate t1 bus (publish_fingerprint md5 t1 et desc ed)
                   \<longrightarrow> bus_publish md5 t2 (fst (bus_publish md5 t1 bus et desc ed)) et desc ed
                         = (fst (bus_publish md5 t1 bus et desc ed), [])))
         \<and> (event_expiry bus * 1000000 \<le> t2 - t1
              \<longrightarrow> snd (bus_publish md5 t2 (fst (bus_publish md5 t1 bus et desc ed)) et desc ed)
                    = concat (map (bus_calls_for bus et (publish_description et desc)
                                     (publish_data et ed))
                                (bus_observers_to_notify bus et (publish_data et ed))))"
proof (intro conjI impI)
  let ?Q = "\<lambda>c. call_observer c = Some r \<and> call_target c = cb"
  let ?first = "bus_publish md5 t1 bus et desc ed"
  let ?second = "bus_publish md5 t2 (fst ?first) et desc ed"
  assume w: "publish_fingerprint md5 t2 et desc ed = publish_fingerprint md5 t1 et desc ed
             \<and> t2 - t1 < event_expiry bus * 1000000"
  show "length (filter ?Q (snd ?first @ snd ?second)) \<le> 1"
  proof (cases "is_recent_duplicate t1 bus (publish_fingerprint md5 t1 et desc ed)")
    case True
    then have f: "?first = (bus, [])" by (simp add: bus_publish_def Let_def)
    have "length (filter ?Q (snd (bus_publish md5 t2 bus et desc ed))) \<le> 1"
      using ok by (rule bus_publish_count)
    then show ?thesis by (simp add: f)
  next
    case False
    have "?second = (fst ?first, [])"
      using w le False by (intro bus_publish_second_dropped) auto
    moreover have "length (filter ?Q (snd ?first)) \<le> 1"
      using ok by (rule bus_publish_count)
    ultimately show ?thesis by simp
  qed
next
  let ?first = "bus_publish md5 t1 bus et desc ed"
  assume w: "publish_fingerprint md5 t2 et desc ed = publish_fingerprint md5 t1 et desc ed
             \<and> t2 - t1 < event_expiry bus * 1000000"
     and fresh: "\<not> is_recent_duplicate t1 bus (publish_fingerprint md5 t1 et desc ed)"
  show "bus_publish md5 t2 (fst ?first) et desc ed = (fst ?first, [])"
    using w le fresh by (intro bus_publish_second_dropped) auto
next
  let ?b1 = "fst (bus_publish md5 t1 bus et desc ed)"
  assume late: "event_expiry bus * 1000000 \<le> t2 - t1"
  have o: "bus_observers ?b1 = bus_observers bus" and e: "event_expiry ?b1 = event_expiry bus"
    using bus_publish_frame[of md5 t1 bus et desc ed] by simp_all
  have st: "bus_stamps_le ?b1 t1" using past by (rule bus_publish_stamps)
  have dk: "dict_ok (bus_observers ?b1)" using ok by (simp add: o bus_ok_def)
  have late1: "event_expiry ?b1 * 1000000 \<le> t2 - t1" using late by (simp add: e)
  have "snd (bus_publish md5 t2 ?b1 et desc ed)
          = concat (map (bus_calls_for ?b1 et (publish_description et desc) (publish_data et ed))
                      (bus_observers_to_notify ?b1 et (publish_data et ed)))"
    using st dk late1 by (rule bus_publish_after_expiry)
  also have "\<dots> = concat (map (bus_calls_for bus et (publish_description et desc) (publish_data et ed))
                      (bus_observers_to_notify bus et (publish_data et ed)))"
    using bus_calls_for_cong[OF o] bus_observers_to_notify_cong[OF o]
    by (intro arg_cong[where f = concat]) (simp cong: map_cong)
  finally show "snd (bus_publish md5 t2 ?b1 et desc ed)
          = concat (map (bus_calls_for bus et (publish_description et desc) (publish_data et ed))
                      (bus_observers_to_notify bus et (publish_data et ed)))" .
qed

theorem bus_publish_dedup_witness:
  "bus_ok ex_bus \<and> bus_stamps_le ex_bus 5000000
   \<and> publish_fingerprint ex_digest 5500000 ''speech'' ''Bob says: hello'' ex_speech
       = publish_fingerprint ex_digest 5000000 ''speech'' ''Bob says: hello'' ex_speech
   \<and> (5500000::int) - 5000000 < event_expiry ex_bus * 1000000
   \<and> \<not> is_recent_duplicate 5000000 ex_bus
         (publish_fingerprint ex_digest 5000000 ''speech'' ''Bob says: hello'' ex_speech)
   \<and> map call_target (snd (bus_publish ex_digest 5000000 ex_bus ''speech'' ''Bob says: hello''
                             ex_speech)) = [1, 2]
   \<and> snd (bus_publish ex_digest 5500000
             (fst (bus_publish ex_digest 5000000 ex_bus ''speech'' ''Bob says: hello'' ex_speech))
             ''speech'' ''Bob says: hello'' ex_speech) = []
   \<and> event_expiry ex_bus * 1000000 \<le> (9000000::int) - 5000000
   \<and> map call_target
        (snd (bus_publish ex_digest 9000000
                (fst (bus_publish ex_digest 5000000 ex_bus ''speech'' ''Bob says: hello'' ex_speech))
                ''speech'' ''Bob says: hello'' ex_speech)) = [1, 2]"
proof -
  have h1: "bus_ok ex_bus" by code_simp
  have h2: "bus_stamps_le ex_bus 5000000" by code_simp
  have h3: "publish_fingerprint ex_digest 5500000 ''speech'' ''Bob says: hello'' ex_speech
       = publish_fingerprint ex_digest 5000000 ''speech'' ''Bob says: hello'' ex_speech"
    by code_simp
  have h4: "(5500000::int) - 5000000 < event_expiry ex_bus * 1000000" by code_simp
  have h5: "\<not> is_recent_duplicate 5000000 ex_bus
         (publish_fingerprint ex_digest 5000000 ''speech'' ''Bob says: hello'' ex_speech)"
    by code_simp
  have h6: "event_expiry ex_bus * 1000000 \<le> (9000000::int) - 5000000" by code_simp
  have e1: "map call_target (snd (bus_publish ex_digest 5000000 ex_bus ''speech''
                ''Bob says: hello'' ex_speech)) = [1, 2]"
    by code_simp
  have e2: "map call_target
              (concat (map (bus_calls_for ex_bus ''speech''
                              (publish_description ''speech'' ''Bob says: hello'')
                              (publish_data ''speech'' ex_speech))
                         (bus_observers_to_notify ex_bus ''speech''
                            (publish_data ''speech'' ex_speech)))) = [1, 2]"
    by code_simp
  have w: "snd (bus_publish ex_digest 5500000
             (fst (bus_publish ex_digest 5000000 ex_bus ''speech'' ''Bob says: hello'' ex_speech))
             ''speech'' ''Bob says: hello'' ex_speech) = []"
    using bus_publish_dedup [OF h1 h2, of 5500000 ex_digest "''speech''" "''Bob says: hello''"
                               ex_speech] h3 h4 h5
    by simp
  have l: "map call_target
        (snd (bus_publish ex_digest 9000000
                (fst (bus_publish ex_digest 5000000 ex_bus ''speech'' ''Bob says: hello'' ex_speech))
                ''speech'' ''Bob says: hello'' ex_speech)) = [1, 2]"
    using bus_publish_dedup [OF h1 h2, of 9000000 ex_digest "''speech''" "''Bob says: hello''"
                               ex_speech] h6 e2
    by simp
  from h1 h2 h3 h4 h5 h6 e1 w l show ?thesis by blast
qed

section \<open>Properties of the streaming turn handler\<close>

subsection \<open>Effect of each step on the resolution count\<close>

lemma store_thinking_chain_frame [simp]:
  "scheduled (store_thinking_chain st) = scheduled st"
  "turn_completed_sets (store_thinking_chain st) = turn_completed_sets st"
  "has_early_stopped (store_thinking_chain st) = has_early_stopped st"
  "command_detected (store_thinking_chain st) = command_detected st"
  "detected_command (store_thinking_chain st) = detected_command st"
  "complete_response (store_thinking_chain st) = complete_response st"
  "cancel_requests (store_thinking_chain st) = cancel_requests st"
  by (simp_all add: store_thinking_chain_def split: option.splits)

lemma store_reason_frame [simp]:
  "scheduled (store_reason r st) = scheduled st"
  "turn_completed_sets (store_reason r st) = turn_completed_sets st"
  "has_early_stopped (store_reason r st) = has_early_stopped st"
  "command_detected (store_reason r st) = command_detected st"
  "detected_command (store_reason r st) = detected_command st"
  "thinking_complete (store_reason r st) = thinking_complete st"
  "post_thinking_buffer (store_reason r st) = post_thinking_buffer st"
  by (simp_all add: store_reason_def split: option.splits)










subsection \<open>A whole turn\<close>
















subsection \<open>Lines and partial lines\<close>











subsection \<open>From a complete line to the early stop\<close>





end
